theory Spec2Isabelle
  imports Main "HOL-Library.Char_ord" "HOL-Library.List_Lexorder" "HOL-Library.Product_Lexorder"
begin

section \<open>Data model\<close>

text \<open>
  The engine runs against three outside parties: the document store, the text model
  (\<^verbatim>\<open>callOpenAI\<close>) and the image service (\<^verbatim>\<open>generateRecraftFoodImage\<close>).
  None of them is part of the repository, so each is an oracle of the environment.
  Every awaited outside call consumes one tick; the oracles are indexed by the tick at
  which the call is made, so that the same call may fail once and succeed later.
  A thrown JavaScript error is a value \<open>Error msg\<close>.
\<close>

datatype exn = Error string

type_synonym localized = "string \<times> string"

text \<open>
  \<^verbatim>\<open>MealUpdateData\<close> (updateExistingMeals.ts): the object parsed from the model's
  JSON answer. The answer is unvalidated JSON, so every field may be missing.
\<close>

record meal_update_data =
  u_title_localized :: "localized option"
  u_description_localized :: "localized option"
  u_benefits :: "localized option"
  u_improvements :: "localized option"
  u_ingredients :: "(string list \<times> string list) option"
  u_recipe :: "localized option"
  u_healthy_alternatives :: "localized option"
  u_meal_type :: "string option"
  u_difficulty :: "string option"
  u_prep_time_minutes :: "int option"
  u_is_comfort_food :: "bool option"
  u_is_healthy_alternative :: "bool option"

text \<open>
  A document of the collection \<^verbatim>\<open>generated_meals\<close>: the fields of
  \<^verbatim>\<open>GeneratedMeal\<close> (types/firestore.ts) that the two jobs read or write, and the
  image fields written by the image job. The nutrition numbers and the language tag
  are read only when a prompt is built and are left out. \<open>id_field\<close> is the
  field \<^verbatim>\<open>id\<close> of \<^verbatim>\<open>MinimalMeal\<close>, as far as it is stored in the
  document's data; \<^verbatim>\<open>GeneratedMeal\<close> does not declare it, and a document that
  follows that type has none.
\<close>

record generated_meal =
  id_field :: "string option"
  title :: string
  comment :: string
  tags :: "string list"
  created_time :: int
  updated_time :: "int option"
  photo :: "string option"
  blurhash :: "string option"
  title_localized :: "localized option"
  description_localized :: "localized option"
  benefits :: "localized option"
  improvements :: "localized option"
  ingredients :: "(string list \<times> string list) option"
  recipe :: "localized option"
  healthy_alternatives :: "localized option"
  meal_type :: "string option"
  difficulty :: "string option"
  prep_time_minutes :: "int option"
  is_comfort_food :: "bool option"
  is_healthy_alternative :: "bool option"
  image_generated_at :: "int option"
  image_generation_source :: "string option"
  image_compressed :: "bool option"
  previous_photo_regenerated :: "bool option"
  image_generation_failed :: "bool option"
  image_generation_error :: "string option"
  image_generation_failed_at :: "int option"

text \<open>The document \<^verbatim>\<open>system/meal_update_lock\<close>.\<close>

record job_lock =
  locked :: bool
  timestamp :: "int option"
  process_id :: string

text \<open>The document \<^verbatim>\<open>system/meal_update_progress\<close>.\<close>

record job_progress =
  lastProcessedId :: "string option"
  totalProcessed :: int
  totalUpdated :: int
  lastUpdate :: int

text \<open>
  The document \<^verbatim>\<open>internal/recraft_image_generation_state\<close>
  (\<^verbatim>\<open>RecraftScanState\<close> plus the \<^verbatim>\<open>updated_at\<close> stamp written by
  \<^verbatim>\<open>setScanState\<close>). \<open>lastDocId = None\<close> stands for both \<^verbatim>\<open>null\<close> and a
  missing field: the code reads it through \<^verbatim>\<open>state.lastDocId || null\<close>.
\<close>

record scan_state =
  lastDocId :: "string option"
  started_at :: "int option"
  finished :: "bool option"
  updated_at :: "int option"

record recraft_options =
  englishTitle :: string
  englishDescription :: string
  mealType :: string
  opt_tags :: "string list"

record image_result =
  photoUrl :: string
  blurhash_of :: string

text \<open>What an observer outside the process can see of a run.\<close>

datatype event =
    Sleep int
  | OpenAICall
  | RecraftCall string
  | MealWrite string

record env =
  io_fault :: "nat \<Rightarrow> string option"
  openai :: "nat \<Rightarrow> generated_meal \<Rightarrow> string + meal_update_data"
  recraft :: "nat \<Rightarrow> recraft_options \<Rightarrow> string + image_result"

record world =
  tick :: nat
  clock :: int
  trace :: "event list"
  lock_doc :: "job_lock option"
  progress_doc :: "job_progress option"
  state_doc :: "scan_state option"
  meals :: "(string \<times> generated_meal) list"

section \<open>Outside calls\<close>

text \<open>
  One awaited call to the store: the tick advances, and the environment says whether
  the call throws.
\<close>

definition store_call :: "env \<Rightarrow> world \<Rightarrow> string option \<times> world" where
  "store_call e w = (io_fault e (tick w), w\<lparr>tick := Suc (tick w)\<rparr>)"

text \<open>\<^verbatim>\<open>await new Promise((resolve) => setTimeout(resolve, delay))\<close>\<close>

definition sleep :: "int \<Rightarrow> world \<Rightarrow> world" where
  "sleep ms w = w\<lparr>clock := clock w + ms, trace := trace w @ [Sleep ms]\<rparr>"

text \<open>Decimal digits of \<^verbatim>\<open>Date.now()\<close>, for the process id of a lock.\<close>

definition digit_char :: "nat \<Rightarrow> char" where
  "digit_char d = ''0123456789'' ! d"

fun show_nat :: "nat \<Rightarrow> string" where
  "show_nat n =
     (if n < 10 then [digit_char n]
      else show_nat (n div 10) @ [digit_char (n mod 10)])"

declare show_nat.simps [simp del]

definition show_int :: "int \<Rightarrow> string" where
  "show_int i = (if i < 0 then CHR ''-'' # show_nat (nat (- i)) else show_nat (nat i))"

section \<open>Lock manager (updateExistingMeals.ts)\<close>

definition TTL_MS :: int where
  "TTL_MS = 30 * 60 * 1000"

text \<open>
  \<^verbatim>\<open>releaseLock\<close>: deletes the lock document; a failed delete is logged and
  swallowed by the \<^verbatim>\<open>catch\<close>, so the function always returns normally.
\<close>

definition releaseLock :: "env \<Rightarrow> world \<Rightarrow> world" where
  "releaseLock e w =
     (case store_call e w of
        (Some msg, w1) \<Rightarrow> w1
      | (None, w1) \<Rightarrow> w1\<lparr>lock_doc := None\<rparr>)"

text \<open>
  \<^verbatim>\<open>isUpdateProcessRunning\<close>: reads the lock document. The whole body sits in a
  \<^verbatim>\<open>try\<close> whose \<^verbatim>\<open>catch\<close> returns false.
\<close>

definition isUpdateProcessRunning :: "env \<Rightarrow> world \<Rightarrow> bool \<times> world" where
  "isUpdateProcessRunning e w =
     (case store_call e w of
        (Some msg, w1) \<Rightarrow> (False, w1)
      | (None, w1) \<Rightarrow>
          (case lock_doc w1 of
             None \<Rightarrow> (False, w1)
           | Some lockData \<Rightarrow>
               (case timestamp lockData of
                  Some lockTime \<Rightarrow>
                    if clock w1 - lockTime > TTL_MS
                    then (False, releaseLock e w1)
                    else (locked lockData = True, w1)
                | None \<Rightarrow> (locked lockData = True, w1))))"

text \<open>
  \<^verbatim>\<open>acquireLock\<close>: writes the lock document without reading it first; a failed
  write is logged and turned into the answer false.
\<close>

definition acquireLock :: "env \<Rightarrow> world \<Rightarrow> bool \<times> world" where
  "acquireLock e w =
     (case store_call e w of
        (Some msg, w1) \<Rightarrow> (False, w1)
      | (None, w1) \<Rightarrow>
          (True, w1\<lparr>lock_doc := Some \<lparr>locked = True, timestamp = Some (clock w1),
                                     process_id = ''update_'' @ show_int (clock w1)\<rparr>\<rparr>))"

section \<open>Meal-description job (updateExistingMeals.ts)\<close>

text \<open>\<^verbatim>\<open>db.collection("generated_meals").doc(id).get()\<close> on the stored collection.\<close>

definition find_meal :: "string \<Rightarrow> (string \<times> generated_meal) list \<Rightarrow> generated_meal option" where
  "find_meal mealId ms = map_of ms mealId"

definition patch_meal ::
  "string \<Rightarrow> (generated_meal \<Rightarrow> generated_meal) \<Rightarrow> (string \<times> generated_meal) list
     \<Rightarrow> (string \<times> generated_meal) list" where
  "patch_meal mealId f ms = map (\<lambda>(i, d). if i = mealId then (i, f d) else (i, d)) ms"

text \<open>
  \<^verbatim>\<open>doc(mealId).update(fields)\<close>: one store call; the store refuses to update a
  document that does not exist. The write is recorded in the trace when it is issued.
\<close>

definition update_meal ::
  "env \<Rightarrow> string \<Rightarrow> (generated_meal \<Rightarrow> generated_meal) \<Rightarrow> world \<Rightarrow> exn option \<times> world" where
  "update_meal e mealId f w =
     (case store_call e (w\<lparr>trace := trace w @ [MealWrite mealId]\<rparr>) of
        (Some msg, w1) \<Rightarrow> (Some (Error msg), w1)
      | (None, w1) \<Rightarrow>
          (case find_meal mealId (meals w1) of
             None \<Rightarrow> (Some (Error ''NOT_FOUND''), w1)
           | Some d \<Rightarrow> (None, w1\<lparr>meals := patch_meal mealId f (meals w1)\<rparr>)))"

text \<open>A field of an update object overwrites the stored field only when it is present.\<close>

definition over :: "'a option \<Rightarrow> 'a option \<Rightarrow> 'a option" where
  "over new old = (case new of Some v \<Rightarrow> Some v | None \<Rightarrow> old)"

text \<open>The write \<^verbatim>\<open>{...updateData, updated_time: Timestamp.now()}\<close>.\<close>

definition apply_update :: "meal_update_data \<Rightarrow> int \<Rightarrow> generated_meal \<Rightarrow> generated_meal" where
  "apply_update u now m =
     m\<lparr>title_localized := over (u_title_localized u) (title_localized m),
       description_localized := over (u_description_localized u) (description_localized m),
       benefits := over (u_benefits u) (benefits m),
       improvements := over (u_improvements u) (improvements m),
       ingredients := over (u_ingredients u) (ingredients m),
       recipe := over (u_recipe u) (recipe m),
       healthy_alternatives := over (u_healthy_alternatives u) (healthy_alternatives m),
       meal_type := over (u_meal_type u) (meal_type m),
       difficulty := over (u_difficulty u) (difficulty m),
       prep_time_minutes := over (u_prep_time_minutes u) (prep_time_minutes m),
       is_comfort_food := over (u_is_comfort_food u) (is_comfort_food m),
       is_healthy_alternative := over (u_is_healthy_alternative u) (is_healthy_alternative m),
       updated_time := Some now\<rparr>"

text \<open>
  \<^verbatim>\<open>generateEnhancedMealDescription\<close>: one call to the text model, then the structure
  check on the parsed answer. Any failure is rethrown.
\<close>

definition generateEnhancedMealDescription ::
  "env \<Rightarrow> generated_meal \<Rightarrow> world \<Rightarrow> (exn + meal_update_data) \<times> world" where
  "generateEnhancedMealDescription e meal w =
     (let w1 = w\<lparr>tick := Suc (tick w), trace := trace w @ [OpenAICall]\<rparr> in
      case openai e (tick w) meal of
        Inl msg \<Rightarrow> (Inl (Error msg), w1)
      | Inr updateData \<Rightarrow>
          if u_title_localized updateData = None \<or> u_description_localized updateData = None
             \<or> u_benefits updateData = None
          then (Inl (Error ''Invalid response structure: missing required fields''), w1)
          else (Inr updateData, w1))"

text \<open>The skip test of \<^verbatim>\<open>updateSingleMeal\<close>: the new fields are already there.\<close>

definition already_updated :: "generated_meal \<Rightarrow> bool" where
  "already_updated meal \<longleftrightarrow>
     description_localized meal \<noteq> None \<and> benefits meal \<noteq> None \<and> ingredients meal \<noteq> None"

text \<open>The part of the \<^verbatim>\<open>try\<close> block after the skip test: generate, then write.\<close>

definition generate_and_write :: "env \<Rightarrow> string \<Rightarrow> generated_meal \<Rightarrow> world \<Rightarrow> exn option \<times> world" where
  "generate_and_write e mealId meal w =
     (case generateEnhancedMealDescription e meal w of
        (Inl err, w1) \<Rightarrow> (Some err, w1)
      | (Inr updateData, w1) \<Rightarrow> update_meal e mealId (apply_update updateData (clock w1)) w1)"

definition maxRetries :: nat where
  "maxRetries = 3"

text \<open>
  The retry loop of \<^verbatim>\<open>updateSingleMeal\<close>, entered at a given attempt number.
  After a failed attempt that is not the last one it waits \<open>2 ^ attempt\<close> seconds.
\<close>

function retry_from :: "env \<Rightarrow> string \<Rightarrow> generated_meal \<Rightarrow> nat \<Rightarrow> world \<Rightarrow> bool \<times> world" where
  "retry_from e mealId meal attempt w =
     (if attempt \<le> maxRetries then
        (if already_updated meal then (True, w)
         else
           (case generate_and_write e mealId meal w of
              (None, w1) \<Rightarrow> (True, w1)
            | (Some err, w1) \<Rightarrow>
                if attempt = maxRetries then (False, w1)
                else retry_from e mealId meal (attempt + 1) (sleep (2 ^ attempt * 1000) w1)))
      else (False, w))"
  by pat_completeness auto
termination
  by (relation "measure (\<lambda>(e, mealId, meal, attempt, w). maxRetries + 1 - attempt)") auto

declare retry_from.simps [simp del]

definition updateSingleMeal :: "env \<Rightarrow> string \<Rightarrow> generated_meal \<Rightarrow> world \<Rightarrow> bool \<times> world" where
  "updateSingleMeal e mealId meal w = retry_from e mealId meal 1 w"

record batch_result =
  r_processed :: nat
  r_updated :: nat
  r_hasMore :: bool
  r_lastProcessedId :: "string option"

definition BATCH_SIZE :: nat where
  "BATCH_SIZE = 5"

text \<open>
  The query \<^verbatim>\<open>orderBy("created_time", "asc").limit(BATCH_SIZE)\<close>, started after a
  document snapshot when one is given. The store breaks ties of the ordering field by
  document id, so the cursor of a snapshot is the pair of its creation time and its id.
\<close>

definition by_created_time :: "(string \<times> generated_meal) list \<Rightarrow> (string \<times> generated_meal) list" where
  "by_created_time ms = sort_key (\<lambda>(i, d). (created_time d, i)) ms"

definition query_by_created_time ::
  "(string \<times> generated_meal) option \<Rightarrow> (string \<times> generated_meal) list
     \<Rightarrow> (string \<times> generated_meal) list" where
  "query_by_created_time startDoc ms =
     take BATCH_SIZE
       (case startDoc of
          None \<Rightarrow> by_created_time ms
        | Some (i, d) \<Rightarrow>
            filter (\<lambda>(j, d'). (created_time d, i) < (created_time d', j)) (by_created_time ms))"

text \<open>
  The \<^verbatim>\<open>for\<close> loop of \<^verbatim>\<open>updateMealsInBatches\<close> over the documents of the page;
  the accumulator is (processedCount, updatedCount, lastProcessedId).
\<close>

fun update_docs ::
  "env \<Rightarrow> (string \<times> generated_meal) list \<Rightarrow> nat \<times> nat \<times> string \<Rightarrow> world
     \<Rightarrow> (nat \<times> nat \<times> string) \<times> world" where
  "update_docs e [] acc w = (acc, w)"
| "update_docs e ((docId, meal) # ds) (processedCount, updatedCount, lastId) w =
     (case updateSingleMeal e docId meal w of
        (success, w1) \<Rightarrow>
          update_docs e ds
            (processedCount + 1, if success then updatedCount + 1 else updatedCount, docId) w1)"

text \<open>
  The start document is read only for a truthy \<^verbatim>\<open>startAfter\<close>; a start document
  that does not exist leaves the query at the beginning.
\<close>

definition read_start_doc ::
  "env \<Rightarrow> string option \<Rightarrow> world \<Rightarrow> (exn + (string \<times> generated_meal) option) \<times> world" where
  "read_start_doc e startAfter w =
     (case startAfter of
        None \<Rightarrow> (Inr None, w)
      | Some s \<Rightarrow>
          if s = [] then (Inr None, w)
          else
            (case store_call e w of
               (Some msg, w1) \<Rightarrow> (Inl (Error msg), w1)
             | (None, w1) \<Rightarrow>
                 (case find_meal s (meals w1) of
                    None \<Rightarrow> (Inr None, w1)
                  | Some d \<Rightarrow> (Inr (Some (s, d)), w1))))"

definition updateMealsInBatches ::
  "env \<Rightarrow> string option \<Rightarrow> world \<Rightarrow> (exn + batch_result) \<times> world" where
  "updateMealsInBatches e startAfter w =
     (case read_start_doc e startAfter w of
        (Inl err, w1) \<Rightarrow> (Inl err, w1)
      | (Inr startDoc, w1) \<Rightarrow>
          (case store_call e w1 of
             (Some msg, w2) \<Rightarrow> (Inl (Error msg), w2)
           | (None, w2) \<Rightarrow>
               (let docs = query_by_created_time startDoc (meals w2) in
                if docs = [] then
                  (Inr \<lparr>r_processed = 0, r_updated = 0, r_hasMore = False,
                        r_lastProcessedId = None\<rparr>, w2)
                else
                  (case update_docs e docs (0, 0, []) w2 of
                     ((processedCount, updatedCount, lastId), w3) \<Rightarrow>
                       (Inr \<lparr>r_processed = processedCount, r_updated = updatedCount,
                             r_hasMore = (processedCount = BATCH_SIZE),
                             r_lastProcessedId = Some lastId\<rparr>, w3)))))"

record step_result =
  s_processed :: nat
  s_updated :: nat
  s_hasMore :: bool

text \<open>
  \<^verbatim>\<open>updateSingleBatchOnly\<close>: one page per invocation, the position kept in the
  progress document. The outer \<^verbatim>\<open>catch\<close> logs and rethrows.
\<close>

definition updateSingleBatchOnly :: "env \<Rightarrow> world \<Rightarrow> (exn + step_result) \<times> world" where
  "updateSingleBatchOnly e w =
     (case store_call e w of
        (Some msg, w1) \<Rightarrow> (Inl (Error msg), w1)
      | (None, w1) \<Rightarrow>
          (let progressDoc = progress_doc w1;
               startAfter = (case progressDoc of None \<Rightarrow> None | Some p \<Rightarrow> lastProcessedId p)
           in case updateMealsInBatches e startAfter w1 of
                (Inl err, w2) \<Rightarrow> (Inl err, w2)
              | (Inr result, w2) \<Rightarrow>
                  (case store_call e w2 of
                     (Some msg, w3) \<Rightarrow> (Inl (Error msg), w3)
                   | (None, w3) \<Rightarrow>
                       (Inr \<lparr>s_processed = r_processed result, s_updated = r_updated result,
                             s_hasMore = r_hasMore result\<rparr>,
                        if r_hasMore result \<and> r_lastProcessedId result \<noteq> None
                           \<and> r_lastProcessedId result \<noteq> Some []
                        then
                          w3\<lparr>progress_doc := Some
                            \<lparr>lastProcessedId = r_lastProcessedId result,
                             totalProcessed =
                               (case progressDoc of None \<Rightarrow> 0 | Some p \<Rightarrow> totalProcessed p)
                               + int (r_processed result),
                             totalUpdated =
                               (case progressDoc of None \<Rightarrow> 0 | Some p \<Rightarrow> totalUpdated p)
                               + int (r_updated result),
                             lastUpdate = clock w3\<rparr>\<rparr>
                        else w3\<lparr>progress_doc := None\<rparr>))))"

text \<open>
  The \<^verbatim>\<open>while (true)\<close> loop of \<^verbatim>\<open>updateAllExistingMeals\<close>. The source puts no
  bound on the number of rounds; the model counts them down from a budget, and a run
  that uses up the budget has no result.
\<close>

fun drain_loop ::
  "env \<Rightarrow> nat \<Rightarrow> string option \<Rightarrow> nat \<times> nat \<Rightarrow> world \<Rightarrow> ((exn + nat \<times> nat) \<times> world) option" where
  "drain_loop e 0 startAfter totals w = None"
| "drain_loop e (Suc n) startAfter (totalProcessed', totalUpdated') w =
     (case updateMealsInBatches e startAfter w of
        (Inl err, w1) \<Rightarrow> Some (Inl err, w1)
      | (Inr result, w1) \<Rightarrow>
          (let totals = (totalProcessed' + r_processed result, totalUpdated' + r_updated result)
           in if \<not> r_hasMore result then Some (Inr totals, w1)
              else drain_loop e n (r_lastProcessedId result) totals (sleep 5000 w1)))"

text \<open>
  \<^verbatim>\<open>updateAllExistingMeals\<close>: the gate, the acquisition, and the loop inside
  \<^verbatim>\<open>try { ... } catch { throw } finally { await releaseLock() }\<close>.
\<close>

definition updateAllExistingMeals ::
  "env \<Rightarrow> nat \<Rightarrow> world \<Rightarrow> ((exn + unit) \<times> world) option" where
  "updateAllExistingMeals e budget w =
     (case isUpdateProcessRunning e w of
        (running, w1) \<Rightarrow>
          if running then Some (Inl (Error ''Update process already running''), w1)
          else
            (case acquireLock e w1 of
               (lockAcquired, w2) \<Rightarrow>
                 if \<not> lockAcquired then Some (Inl (Error ''Failed to acquire lock''), w2)
                 else
                   (case drain_loop e budget None (0, 0) w2 of
                      None \<Rightarrow> None
                    | Some (Inl err, w3) \<Rightarrow> Some (Inl err, releaseLock e w3)
                    | Some (Inr totals, w3) \<Rightarrow> Some (Inr (), releaseLock e w3))))"

section \<open>Image job (generateRecraftImages.ts and recraftImageGeneration.ts)\<close>

definition IMAGE_BATCH_SIZE :: nat where
  "IMAGE_BATCH_SIZE = 10"

definition SCAN_PAGE_SIZE :: nat where
  "SCAN_PAGE_SIZE = 200"

definition empty_scan_state :: scan_state where
  "empty_scan_state = \<lparr>lastDocId = None, started_at = None, finished = None, updated_at = None\<rparr>"

text \<open>\<^verbatim>\<open>getScanState\<close>: the stored state, or the empty object.\<close>

definition getScanState :: "env \<Rightarrow> world \<Rightarrow> (exn + scan_state) \<times> world" where
  "getScanState e w =
     (case store_call e w of
        (Some msg, w1) \<Rightarrow> (Inl (Error msg), w1)
      | (None, w1) \<Rightarrow>
          (Inr (case state_doc w1 of None \<Rightarrow> empty_scan_state | Some s \<Rightarrow> s), w1))"

text \<open>
  \<^verbatim>\<open>setScanState({lastDocId, finished})\<close>: a merging write, so a field that is not
  in the patch keeps its stored value; \<^verbatim>\<open>updated_at\<close> is stamped.
\<close>

definition setScanState :: "env \<Rightarrow> string option \<Rightarrow> bool \<Rightarrow> world \<Rightarrow> exn option \<times> world" where
  "setScanState e newLastDocId newFinished w =
     (case store_call e w of
        (Some msg, w1) \<Rightarrow> (Some (Error msg), w1)
      | (None, w1) \<Rightarrow>
          (None,
           w1\<lparr>state_doc := Some
             ((case state_doc w1 of None \<Rightarrow> empty_scan_state | Some s \<Rightarrow> s)
                \<lparr>lastDocId := newLastDocId, finished := Some newFinished,
                 updated_at := Some (clock w1)\<rparr>)\<rparr>))"

text \<open>\<^verbatim>\<open>state.lastDocId || null\<close>: an empty id counts as no cursor.\<close>

definition cursor_of :: "scan_state \<Rightarrow> string option" where
  "cursor_of state =
     (case lastDocId state of None \<Rightarrow> None | Some l \<Rightarrow> if l = [] then None else Some l)"

text \<open>
  The query \<^verbatim>\<open>orderBy(documentId()).limit(SCAN_PAGE_SIZE)\<close>, continued strictly
  after the cursor id when there is one.
\<close>

definition by_id :: "(string \<times> generated_meal) list \<Rightarrow> (string \<times> generated_meal) list" where
  "by_id ms = sort_key fst ms"

definition query_by_id ::
  "string option \<Rightarrow> (string \<times> generated_meal) list \<Rightarrow> (string \<times> generated_meal) list" where
  "query_by_id cursor ms =
     take SCAN_PAGE_SIZE
       (case cursor of
          None \<Rightarrow> by_id ms
        | Some l \<Rightarrow> filter (\<lambda>(i, d). l < i) (by_id ms))"

text \<open>\<^verbatim>\<open>meal.title_localized?.en || meal.title\<close>\<close>

definition english_title :: "generated_meal \<Rightarrow> string" where
  "english_title d =
     (case title_localized d of
        Some (en, ru) \<Rightarrow> if en \<noteq> [] then en else title d
      | None \<Rightarrow> title d)"

text \<open>
  \<^verbatim>\<open>meal.description_localized?.en || meal.comment || `A delicious ${meal.title}`\<close>
\<close>

definition english_description :: "generated_meal \<Rightarrow> string" where
  "english_description d =
     (let fallback = (if comment d \<noteq> [] then comment d else ''A delicious '' @ title d)
      in case description_localized d of
           Some (en, ru) \<Rightarrow> if en \<noteq> [] then en else fallback
         | None \<Rightarrow> fallback)"

definition normalizeMealType :: "string option \<Rightarrow> string" where
  "normalizeMealType t =
     (case t of
        None \<Rightarrow> ''full_meal''
      | Some x \<Rightarrow> if x = ''snack'' \<or> x = ''drink'' then x else ''full_meal'')"

text \<open>
  The page filter of \<^verbatim>\<open>generateImagesBatch\<close>: a document needs a new image when
  its image does not come from the current provider and it has a title to draw from.
  An earlier failure does not exclude it.
\<close>

definition needs_image :: "generated_meal \<Rightarrow> bool" where
  "needs_image d \<longleftrightarrow>
     image_generation_source d \<noteq> Some ''recraft-v3'' \<and> english_title d \<noteq> []"

text \<open>\<^verbatim>\<open>generateRecraftFoodImage\<close>: one call to the image service.\<close>

definition generateRecraftFoodImage ::
  "env \<Rightarrow> recraft_options \<Rightarrow> world \<Rightarrow> (exn + image_result) \<times> world" where
  "generateRecraftFoodImage e opts w =
     (let w1 = w\<lparr>tick := Suc (tick w), trace := trace w @ [RecraftCall (englishTitle opts)]\<rparr>
      in case recraft e (tick w) opts of
           Inl msg \<Rightarrow> (Inl (Error msg), w1)
         | Inr result \<Rightarrow> (Inr result, w1))"

text \<open>The fields written after a successful generation.\<close>

definition image_patch :: "image_result \<Rightarrow> int \<Rightarrow> generated_meal \<Rightarrow> generated_meal" where
  "image_patch result now d =
     d\<lparr>photo := Some (photoUrl result),
       blurhash := Some (blurhash_of result),
       image_generated_at := Some now,
       image_generation_source := Some ''recraft-v3'',
       image_compressed := Some True,
       previous_photo_regenerated := Some True,
       updated_time := Some now,
       image_generation_failed := Some False,
       image_generation_error := None,
       image_generation_failed_at := None\<rparr>"

text \<open>The fields written by \<^verbatim>\<open>markMealImageFailed\<close>.\<close>

definition failure_patch :: "string \<Rightarrow> int \<Rightarrow> generated_meal \<Rightarrow> generated_meal" where
  "failure_patch msg now d =
     d\<lparr>image_generation_failed := Some True,
       image_generation_error := Some msg,
       image_generation_failed_at := Some now,
       updated_time := Some now\<rparr>"

text \<open>
  \<^verbatim>\<open>markMealImageFailed\<close>: the marking write sits in its own \<^verbatim>\<open>try\<close>; when it
  fails the error is logged and dropped.
\<close>

definition markMealImageFailed :: "env \<Rightarrow> string \<Rightarrow> string \<Rightarrow> world \<Rightarrow> world" where
  "markMealImageFailed e mealId msg w = snd (update_meal e mealId (failure_patch msg (clock w)) w)"

text \<open>The argument object built for \<^verbatim>\<open>generateRecraftFoodImage\<close>.\<close>

definition recraft_options_of :: "generated_meal \<Rightarrow> recraft_options" where
  "recraft_options_of d =
     \<lparr>englishTitle = english_title d, englishDescription = english_description d,
      mealType = normalizeMealType (meal_type d), opt_tags = tags d\<rparr>"

text \<open>The \<^verbatim>\<open>try\<close> block of one item: generate, write, pause half a second.\<close>

definition regenerate_one :: "env \<Rightarrow> string \<Rightarrow> generated_meal \<Rightarrow> world \<Rightarrow> exn option \<times> world" where
  "regenerate_one e mealId d w =
     (case generateRecraftFoodImage e (recraft_options_of d) w of
        (Inl err, w1) \<Rightarrow> (Some err, w1)
      | (Inr result, w1) \<Rightarrow>
          (case update_meal e mealId (image_patch result (clock w1)) w1 of
             (Some err, w2) \<Rightarrow> (Some err, w2)
           | (None, w2) \<Rightarrow> (None, sleep 500 w2)))"

text \<open>
  \<^verbatim>\<open>meal.id\<close> of \<^verbatim>\<open>const meal = {id: doc.id, ...data}\<close>: the spread comes
  second, so an id stored in the data replaces the document id.
\<close>

definition meal_id_of :: "string \<Rightarrow> generated_meal \<Rightarrow> string" where
  "meal_id_of docId d = (case id_field d of None \<Rightarrow> docId | Some stored \<Rightarrow> stored)"

text \<open>
  The \<^verbatim>\<open>for\<close> loop over \<^verbatim>\<open>toProcess\<close>; the accumulator is (processedCount,
  generatedCount, failedCount). An item whose \<^verbatim>\<open>meal.id\<close> or title is empty is
  counted as processed and passed over. The image write and the failure mark both go
  to the document named by \<^verbatim>\<open>meal.id\<close>.
\<close>

fun regenerate_docs ::
  "env \<Rightarrow> (string \<times> generated_meal) list \<Rightarrow> nat \<times> nat \<times> nat \<Rightarrow> world
     \<Rightarrow> (nat \<times> nat \<times> nat) \<times> world" where
  "regenerate_docs e [] acc w = (acc, w)"
| "regenerate_docs e ((docId, d) # ds) (processedCount, generatedCount, failedCount) w =
     (if meal_id_of docId d = [] \<or> english_title d = [] then
        regenerate_docs e ds (processedCount + 1, generatedCount, failedCount) w
      else
        (case regenerate_one e (meal_id_of docId d) d w of
           (None, w1) \<Rightarrow>
             regenerate_docs e ds (processedCount + 1, generatedCount + 1, failedCount) w1
         | (Some (Error msg), w1) \<Rightarrow>
             regenerate_docs e ds (processedCount + 1, generatedCount, failedCount + 1)
               (markMealImageFailed e (meal_id_of docId d) msg w1)))"

record image_batch_result =
  b_processed :: nat
  b_generated :: nat
  b_failed :: nat
  b_hasMore :: bool

text \<open>Steps 1 and 2 of \<^verbatim>\<open>generateImagesBatch\<close>: load the cursor, read one page.\<close>

definition scan_page :: "env \<Rightarrow> world \<Rightarrow> (exn + (string \<times> generated_meal) list) \<times> world" where
  "scan_page e w =
     (case getScanState e w of
        (Inl err, w1) \<Rightarrow> (Inl err, w1)
      | (Inr state, w1) \<Rightarrow>
          (case store_call e w1 of
             (Some msg, w2) \<Rightarrow> (Inl (Error msg), w2)
           | (None, w2) \<Rightarrow> (Inr (query_by_id (cursor_of state) (meals w2)), w2)))"

text \<open>The closing cursor write and the summary that goes with it.\<close>

definition advance_and_return ::
  "env \<Rightarrow> string option \<Rightarrow> bool \<Rightarrow> image_batch_result \<Rightarrow> world
     \<Rightarrow> (exn + image_batch_result) \<times> world" where
  "advance_and_return e newLastDocId newFinished summary w =
     (case setScanState e newLastDocId newFinished w of
        (Some err, w1) \<Rightarrow> (Inl err, w1)
      | (None, w1) \<Rightarrow> (Inr summary, w1))"

text \<open>
  \<^verbatim>\<open>generateImagesBatch\<close>. The guard against a missing last document is
  unreachable after the emptiness test and is not a branch of the model.
\<close>

definition generateImagesBatch :: "env \<Rightarrow> world \<Rightarrow> (exn + image_batch_result) \<times> world" where
  "generateImagesBatch e w =
     (case scan_page e w of
        (Inl err, w1) \<Rightarrow> (Inl err, w1)
      | (Inr docs, w1) \<Rightarrow>
          if docs = [] then
            advance_and_return e None True
              \<lparr>b_processed = 0, b_generated = 0, b_failed = 0, b_hasMore = False\<rparr> w1
          else
            (let pageDocCount = length docs;
                 lastDocOnPageId = fst (last docs);
                 pageHasMore = (pageDocCount = SCAN_PAGE_SIZE);
                 candidates = filter (\<lambda>(i, d). needs_image d) docs
             in if candidates = [] then
                  advance_and_return e (Some lastDocOnPageId) (\<not> pageHasMore)
                    \<lparr>b_processed = 0, b_generated = 0, b_failed = 0, b_hasMore = pageHasMore\<rparr> w1
                else
                  (case regenerate_docs e (take IMAGE_BATCH_SIZE candidates) (0, 0, 0) w1 of
                     ((processedCount, generatedCount, failedCount), w2) \<Rightarrow>
                       advance_and_return e (Some lastDocOnPageId) (\<not> pageHasMore)
                         \<lparr>b_processed = processedCount, b_generated = generatedCount,
                          b_failed = failedCount, b_hasMore = pageHasMore\<rparr> w2)))"

section \<open>Observations on runs\<close>

text \<open>The trace without the store writes: the calls to the text model and the waits.\<close>

fun is_write :: "event \<Rightarrow> bool" where
  "is_write (MealWrite i) = True"
| "is_write x = False"

definition calls_and_waits :: "event list \<Rightarrow> event list" where
  "calls_and_waits evs = filter (\<lambda>x. \<not> is_write x) evs"

text \<open>
  An attempt of \<^verbatim>\<open>updateSingleMeal\<close> started in \<open>w\<close> goes through: the text model
  answers the call with an object that has the three required fields, the write that
  follows does not throw, and the document exists.
\<close>

definition attempt_succeeds :: "env \<Rightarrow> string \<Rightarrow> generated_meal \<Rightarrow> world \<Rightarrow> bool" where
  "attempt_succeeds e mealId meal w \<longleftrightarrow>
     (case openai e (tick w) meal of
        Inl msg \<Rightarrow> False
      | Inr u \<Rightarrow>
          u_title_localized u \<noteq> None \<and> u_description_localized u \<noteq> None
          \<and> u_benefits u \<noteq> None \<and> io_fault e (Suc (tick w)) = None
          \<and> find_meal mealId (meals w) \<noteq> None)"

fun is_recraft_call :: "event \<Rightarrow> bool" where
  "is_recraft_call (RecraftCall t) = True"
| "is_recraft_call x = False"

text \<open>
  A run from \<open>w\<close> to \<open>w'\<close> touches only the meals whose id is in \<open>K\<close>: the
  collection keeps its ids and creation times, every other document is what it was,
  and no write was issued against an id outside \<open>K\<close>.
\<close>

definition only_touches :: "string set \<Rightarrow> world \<Rightarrow> world \<Rightarrow> bool" where
  "only_touches K w w' \<longleftrightarrow>
     map fst (meals w') = map fst (meals w)
     \<and> map (created_time \<circ> snd) (meals w') = map (created_time \<circ> snd) (meals w)
     \<and> (\<forall>k. k \<notin> K \<longrightarrow> find_meal k (meals w') = find_meal k (meals w))
     \<and> (\<exists>evs. trace w' = trace w @ evs \<and> (\<forall>i. MealWrite i \<in> set evs \<longrightarrow> i \<in> K))"

text \<open>The ids the image loop may write to: \<^verbatim>\<open>meal.id\<close> of each item.\<close>

definition written_ids :: "(string \<times> generated_meal) list \<Rightarrow> string set" where
  "written_ids ds = (\<lambda>(i, d). meal_id_of i d) ` set ds"

text \<open>
  The items the image loop attempts: those it does not pass over, with a non-empty
  \<^verbatim>\<open>meal.id\<close> and a non-empty title.
\<close>

definition attempted :: "(string \<times> generated_meal) list \<Rightarrow> (string \<times> generated_meal) list" where
  "attempted ds = filter (\<lambda>(i, d). meal_id_of i d \<noteq> [] \<and> english_title d \<noteq> []) ds"

text \<open>
  An attempted item ends in the \<^verbatim>\<open>catch\<close> block, with a store that does not throw
  and an image service that answers by \<open>gen\<close>: the service refuses the request, or
  the image write finds no document under \<^verbatim>\<open>meal.id\<close>.
\<close>

definition item_fails ::
  "(recraft_options \<Rightarrow> string + image_result) \<Rightarrow> (string \<times> generated_meal) list \<Rightarrow>
     string \<times> generated_meal \<Rightarrow> bool" where
  "item_fails gen ms =
     (\<lambda>(i, d). isl (gen (recraft_options_of d)) \<or> find_meal (meal_id_of i d) ms = None)"

text \<open>
  The page an invocation of the image job started on \<open>w\<close> reads, and the candidates
  it selects from that page.
\<close>

definition page_of :: "world \<Rightarrow> (string \<times> generated_meal) list" where
  "page_of w =
     query_by_id
       (cursor_of (case state_doc w of None \<Rightarrow> empty_scan_state | Some s \<Rightarrow> s)) (meals w)"

definition selected :: "world \<Rightarrow> (string \<times> generated_meal) list" where
  "selected w = take IMAGE_BATCH_SIZE (filter (\<lambda>(i, d). needs_image d) (page_of w))"

text \<open>
  The page an invocation of \<^verbatim>\<open>updateSingleBatchOnly\<close> started on \<open>w\<close> reads:
  the query continued after the document named by the progress record, when that
  document exists.
\<close>

definition start_doc_of ::
  "string option \<Rightarrow> (string \<times> generated_meal) list \<Rightarrow> (string \<times> generated_meal) option" where
  "start_doc_of startAfter ms =
     (case startAfter of
        None \<Rightarrow> None
      | Some s \<Rightarrow>
          if s = [] then None
          else (case find_meal s ms of None \<Rightarrow> None | Some d \<Rightarrow> Some (s, d)))"


text \<open>
  The number of documents that lie after the cursor of \<^verbatim>\<open>updateMealsInBatches\<close>
  in the order of the query.
\<close>

definition remaining :: "string option \<Rightarrow> world \<Rightarrow> nat" where
  "remaining startAfter w =
     (case start_doc_of startAfter (meals w) of
        None \<Rightarrow> length (meals w)
      | Some (i, d) \<Rightarrow>
          length (filter (\<lambda>(j, d'). (created_time d, i) < (created_time d', j)) (meals w)))"

section \<open>Sample environments and stores\<close>

definition plain_meal :: "string \<Rightarrow> int \<Rightarrow> generated_meal" where
  "plain_meal t ct =
     \<lparr>id_field = None, title = t, comment = [], tags = [], created_time = ct,
      updated_time = None,
      photo = None, blurhash = None, title_localized = None, description_localized = None,
      benefits = None, improvements = None, ingredients = None, recipe = None,
      healthy_alternatives = None, meal_type = None, difficulty = None,
      prep_time_minutes = None, is_comfort_food = None, is_healthy_alternative = None,
      image_generated_at = None, image_generation_source = None, image_compressed = None,
      previous_photo_regenerated = None, image_generation_failed = None,
      image_generation_error = None, image_generation_failed_at = None\<rparr>"

definition full_update :: meal_update_data where
  "full_update =
     \<lparr>u_title_localized = Some (''T'', ''T''), u_description_localized = Some (''D'', ''D''),
      u_benefits = Some (''B'', ''B''), u_improvements = None,
      u_ingredients = Some ([''i''], [''i'']), u_recipe = None, u_healthy_alternatives = None,
      u_meal_type = None, u_difficulty = None, u_prep_time_minutes = None,
      u_is_comfort_food = None, u_is_healthy_alternative = None\<rparr>"

text \<open>Every outside call succeeds.\<close>

definition steady_env :: env where
  "steady_env =
     \<lparr>io_fault = (\<lambda>n. None), openai = (\<lambda>n m. Inr full_update),
      recraft = (\<lambda>n opts. Inr \<lparr>photoUrl = ''u'', blurhash_of = ''b''\<rparr>)\<rparr>"

text \<open>Every store call throws.\<close>

definition broken_store_env :: env where
  "broken_store_env =
     \<lparr>io_fault = (\<lambda>n. Some ''UNAVAILABLE''), openai = (\<lambda>n m. Inr full_update),
      recraft = (\<lambda>n opts. Inr \<lparr>photoUrl = ''u'', blurhash_of = ''b''\<rparr>)\<rparr>"

definition two_meals_world :: world where
  "two_meals_world =
     \<lparr>tick = 0, clock = 5000000, trace = [], lock_doc = None, progress_doc = None,
      state_doc = None,
      meals = [(''b'', plain_meal ''Soup'' 2), (''a'', plain_meal ''Tea'' 1)]\<rparr>"

text \<open>A lock taken one second ago.\<close>

definition held_world :: world where
  "held_world =
     two_meals_world\<lparr>lock_doc := Some
       \<lparr>locked = True, timestamp = Some 4999000, process_id = ''update_4999000''\<rparr>\<rparr>"

text \<open>A lock taken forty minutes ago.\<close>

definition stale_world :: world where
  "stale_world =
     two_meals_world\<lparr>lock_doc := Some
       \<lparr>locked = True, timestamp = Some 2600000, process_id = ''update_2600000''\<rparr>\<rparr>"

text \<open>The text model always times out.\<close>

definition failing_model_env :: env where
  "failing_model_env =
     \<lparr>io_fault = (\<lambda>n. None), openai = (\<lambda>n m. Inl ''timeout''),
      recraft = (\<lambda>n opts. Inr \<lparr>photoUrl = ''u'', blurhash_of = ''b''\<rparr>)\<rparr>"

text \<open>The text model times out on the first outside call and answers afterwards.\<close>

definition flaky_model_env :: env where
  "flaky_model_env =
     \<lparr>io_fault = (\<lambda>n. None),
      openai = (\<lambda>n m. if n = 0 then Inl ''timeout'' else Inr full_update),
      recraft = (\<lambda>n opts. Inr \<lparr>photoUrl = ''u'', blurhash_of = ''b''\<rparr>)\<rparr>"

text \<open>A meal that already carries the fields of the description job.\<close>

definition enriched_meal :: "string \<Rightarrow> int \<Rightarrow> generated_meal" where
  "enriched_meal t ct =
     (plain_meal t ct)
       \<lparr>description_localized := Some (''D'', ''D''), benefits := Some (''B'', ''B''),
        ingredients := Some ([''i''], [''i''])\<rparr>"

definition enriched_world :: world where
  "enriched_world =
     \<lparr>tick = 0, clock = 5000000, trace = [], lock_doc = None, progress_doc = None,
      state_doc = None,
      meals = [(''b'', enriched_meal ''Soup'' 2), (''a'', enriched_meal ''Tea'' 1)]\<rparr>"

text \<open>A meal that needs neither job: new fields present, image from the current provider.\<close>

definition done_meal :: "string \<Rightarrow> int \<Rightarrow> generated_meal" where
  "done_meal t ct = (enriched_meal t ct)\<lparr>image_generation_source := Some ''recraft-v3''\<rparr>"

definition mixed_world :: world where
  "mixed_world =
     \<lparr>tick = 0, clock = 5000000, trace = [], lock_doc = None, progress_doc = None,
      state_doc = None,
      meals = [(''b'', plain_meal ''Soup'' 2), (''a'', done_meal ''Tea'' 1)]\<rparr>"

text \<open>The image service refuses the title C and serves every other title.\<close>

definition picky_service :: "recraft_options \<Rightarrow> string + image_result" where
  "picky_service opts =
     (if englishTitle opts = ''C'' then Inl ''rejected''
      else Inr \<lparr>photoUrl = ''u'', blurhash_of = ''b''\<rparr>)"

definition picky_env :: env where
  "picky_env =
     \<lparr>io_fault = (\<lambda>n. None), openai = (\<lambda>n m. Inr full_update),
      recraft = (\<lambda>n. picky_service)\<rparr>"

definition five_meals_world :: world where
  "five_meals_world =
     \<lparr>tick = 0, clock = 5000000, trace = [], lock_doc = None, progress_doc = None,
      state_doc = None,
      meals = [(''m1'', plain_meal ''A'' 1), (''m2'', plain_meal ''B'' 2),
               (''m3'', plain_meal ''C'' 3), (''m4'', plain_meal ''D'' 4),
               (''m5'', plain_meal ''E'' 5)]\<rparr>"

text \<open>The same five meals, the first of which stores an empty \<^verbatim>\<open>id\<close> in its data.\<close>

definition unnamed_item_world :: world where
  "unnamed_item_world =
     \<lparr>tick = 0, clock = 5000000, trace = [], lock_doc = None, progress_doc = None,
      state_doc = None,
      meals = [(''m1'', (plain_meal ''A'' 1)\<lparr>id_field := Some []\<rparr>),
               (''m2'', plain_meal ''B'' 2), (''m3'', plain_meal ''C'' 3),
               (''m4'', plain_meal ''D'' 4), (''m5'', plain_meal ''E'' 5)]\<rparr>"

text \<open>
  A candidate of the image job whose data stores the id of another document, one that
  needs no work.
\<close>

definition aliased_world :: world where
  "aliased_world =
     \<lparr>tick = 0, clock = 5000000, trace = [], lock_doc = None, progress_doc = None,
      state_doc = None,
      meals = [(''m1'', (plain_meal ''A'' 1)\<lparr>id_field := Some ''m2''\<rparr>),
               (''m2'', done_meal ''B'' 2)]\<rparr>"

text \<open>The third outside call throws, every other one succeeds.\<close>

definition third_call_fails_env :: env where
  "third_call_fails_env =
     \<lparr>io_fault = (\<lambda>n. if n = 2 then Some ''UNAVAILABLE'' else None),
      openai = (\<lambda>n m. Inr full_update),
      recraft = (\<lambda>n opts. Inr \<lparr>photoUrl = ''u'', blurhash_of = ''b''\<rparr>)\<rparr>"


section \<open>Lock manager: acquisition, errors, stale locks\<close>

text \<open>
  Claim C1, as the specification words it, makes \<^verbatim>\<open>acquire\<close> answer false while an
  active lock is held. \<^verbatim>\<open>acquireLock\<close> does not read the lock: on a store whose
  lock is one second old, the is-active check answers true and \<^verbatim>\<open>acquireLock\<close>
  answers true as well.
\<close>

theorem acquire_while_held_counterexample:
  "fst (isUpdateProcessRunning steady_env held_world) = True
   \<and> fst (acquireLock steady_env held_world) = True"
  by (simp add: isUpdateProcessRunning_def acquireLock_def store_call_def steady_env_def
      held_world_def two_meals_world_def TTL_MS_def)

text \<open>
  Claim C1, amended. \<^verbatim>\<open>acquireLock\<close> is an unconditional write: when the write
  succeeds it answers true and replaces whatever lock is stored by a fresh one, and it
  answers false only when the write fails. Exclusion comes from the gate in front of
  it: with an active lock stored (locked, at most thirty minutes old) and a successful
  read, \<^verbatim>\<open>updateAllExistingMeals\<close> throws "Update process already running" and
  leaves lock and meals as they were. In particular, once \<^verbatim>\<open>acquireLock\<close> has
  answered true, a drain started within thirty minutes on a store that still holds that
  lock is refused.
\<close>

theorem acquire_unconditional_gate_excludes:
  "(io_fault e (tick w) = None \<longrightarrow>
      acquireLock e w =
        (True, w\<lparr>tick := Suc (tick w),
                 lock_doc := Some \<lparr>locked = True, timestamp = Some (clock w),
                                   process_id = ''update_'' @ show_int (clock w)\<rparr>\<rparr>))
   \<and> (io_fault e (tick w) \<noteq> None \<longrightarrow> acquireLock e w = (False, w\<lparr>tick := Suc (tick w)\<rparr>))
   \<and> (io_fault e (tick w) = None \<and> lock_doc w = Some l \<and> locked l \<and> timestamp l = Some t
        \<and> clock w - t \<le> 30 * 60 * 1000 \<longrightarrow>
      updateAllExistingMeals e budget w =
        Some (Inl (Error ''Update process already running''), w\<lparr>tick := Suc (tick w)\<rparr>))
   \<and> (acquireLock e w = (True, w2) \<and> lock_doc v = lock_doc w2 \<and> io_fault e (tick v) = None
        \<and> clock v - clock w \<le> 30 * 60 * 1000 \<longrightarrow>
      updateAllExistingMeals e budget v =
        Some (Inl (Error ''Update process already running''), v\<lparr>tick := Suc (tick v)\<rparr>))"
proof -
  have gate: "updateAllExistingMeals e budget u =
      Some (Inl (Error ''Update process already running''), u\<lparr>tick := Suc (tick u)\<rparr>)"
    if "io_fault e (tick u) = None" and "lock_doc u = Some k" and "locked k"
      and "timestamp k = Some s" and "clock u - s \<le> 30 * 60 * 1000" for u k s
    using that
    by (simp add: updateAllExistingMeals_def isUpdateProcessRunning_def store_call_def
        TTL_MS_def)
  have written: "acquireLock e w =
      (True, w\<lparr>tick := Suc (tick w),
               lock_doc := Some \<lparr>locked = True, timestamp = Some (clock w),
                                 process_id = ''update_'' @ show_int (clock w)\<rparr>\<rparr>)"
    if "io_fault e (tick w) = None"
    using that by (simp add: acquireLock_def store_call_def)
  have failed: "acquireLock e w = (False, w\<lparr>tick := Suc (tick w)\<rparr>)"
    if "io_fault e (tick w) \<noteq> None"
    using that by (auto simp: acquireLock_def store_call_def)
  have again: "updateAllExistingMeals e budget v =
      Some (Inl (Error ''Update process already running''), v\<lparr>tick := Suc (tick v)\<rparr>)"
    if acq: "acquireLock e w = (True, w2)" and same: "lock_doc v = lock_doc w2"
      and read: "io_fault e (tick v) = None" and young: "clock v - clock w \<le> 30 * 60 * 1000"
  proof -
    from acq have "io_fault e (tick w) = None"
      by (cases "io_fault e (tick w)") (auto simp: acquireLock_def store_call_def)
    from written [OF this] acq same
    have "lock_doc v = Some \<lparr>locked = True, timestamp = Some (clock w),
        process_id = ''update_'' @ show_int (clock w)\<rparr>"
      by auto
    from gate [OF read this _ _ young] show ?thesis
      by simp
  qed
  from gate written failed again show ?thesis
    by blast
qed

theorem acquire_unconditional_gate_excludes_witness:
  "acquireLock steady_env held_world =
     (True, held_world\<lparr>tick := 1,
              lock_doc := Some \<lparr>locked = True, timestamp = Some 5000000,
                                process_id = ''update_5000000''\<rparr>\<rparr>)
   \<and> acquireLock broken_store_env held_world = (False, held_world\<lparr>tick := 1\<rparr>)
   \<and> updateAllExistingMeals steady_env 10 held_world =
        Some (Inl (Error ''Update process already running''), held_world\<lparr>tick := 1\<rparr>)
   \<and> updateAllExistingMeals steady_env 10
        (held_world\<lparr>lock_doc := Some \<lparr>locked = True, timestamp = Some 5000000,
                                          process_id = ''update_5000000''\<rparr>\<rparr>) =
        Some (Inl (Error ''Update process already running''),
              held_world\<lparr>lock_doc := Some \<lparr>locked = True, timestamp = Some 5000000,
                                              process_id = ''update_5000000''\<rparr>,
                         tick := 1\<rparr>)"
proof -
  let ?l = "\<lparr>locked = True, timestamp = Some 4999000, process_id = ''update_4999000''\<rparr>"
  have s: "show_int 5000000 = ''5000000''"
    by (simp add: show_int_def show_nat.simps digit_char_def)
  have a: "io_fault steady_env (tick held_world) = None"
    by (simp add: steady_env_def)
  have b: "io_fault broken_store_env (tick held_world) \<noteq> None"
    by (simp add: broken_store_env_def)
  have c: "lock_doc held_world = Some ?l"
    by (simp add: held_world_def)
  have t: "tick held_world = 0" "clock held_world = 5000000"
    by (simp_all add: held_world_def two_meals_world_def)
  let ?v = "held_world\<lparr>lock_doc := Some \<lparr>locked = True, timestamp = Some 5000000,
      process_id = ''update_5000000''\<rparr>\<rparr>"
  let ?w2 = "held_world\<lparr>tick := 1, lock_doc := Some \<lparr>locked = True,
      timestamp = Some 5000000, process_id = ''update_5000000''\<rparr>\<rparr>"
  have first: "acquireLock steady_env held_world = (True, ?w2)"
    using acquire_unconditional_gate_excludes [of steady_env held_world ?l 4999000 10] a
    by (simp add: t s)
  have v: "lock_doc ?v = lock_doc ?w2" "io_fault steady_env (tick ?v) = None"
    "clock ?v - clock held_world \<le> 30 * 60 * 1000" "tick ?v = 0"
    by (simp_all add: steady_env_def t)
  have second: "updateAllExistingMeals steady_env 10 ?v =
      Some (Inl (Error ''Update process already running''), ?v\<lparr>tick := Suc (tick ?v)\<rparr>)"
    using acquire_unconditional_gate_excludes
        [of steady_env held_world ?l 4999000 10 ?w2 ?v] first v(1,2,3)
    by blast
  show ?thesis
    using acquire_unconditional_gate_excludes [of steady_env held_world ?l 4999000 10]
      acquire_unconditional_gate_excludes [of broken_store_env held_world ?l 4999000 10]
      a b c second
    by (simp add: t s)
qed

text \<open>
  Claim C2, as the specification words it, lets no store error turn into the answer
  "no lock". With a store whose every call throws, the is-active check answers false
  although the stored lock is active, and \<^verbatim>\<open>releaseLock\<close> returns normally with
  the lock still stored.
\<close>

theorem lock_errors_counterexample:
  "fst (isUpdateProcessRunning steady_env held_world) = True
   \<and> fst (isUpdateProcessRunning broken_store_env held_world) = False
   \<and> lock_doc (releaseLock broken_store_env held_world) \<noteq> None"
  by (simp add: isUpdateProcessRunning_def releaseLock_def store_call_def steady_env_def
      broken_store_env_def held_world_def two_meals_world_def TTL_MS_def)

text \<open>
  Claim C2, amended. No operation of the lock manager lets a store error out: each one
  catches it. When its store call throws, the is-active check answers false,
  \<^verbatim>\<open>acquireLock\<close> answers false and \<^verbatim>\<open>releaseLock\<close> returns normally; in all
  three cases the stored lock is left as it was.
\<close>

theorem lock_errors_swallowed:
  "io_fault e (tick w) = Some msg \<Longrightarrow>
     isUpdateProcessRunning e w = (False, w\<lparr>tick := Suc (tick w)\<rparr>)
     \<and> acquireLock e w = (False, w\<lparr>tick := Suc (tick w)\<rparr>)
     \<and> releaseLock e w = w\<lparr>tick := Suc (tick w)\<rparr>"
  by (simp add: isUpdateProcessRunning_def acquireLock_def releaseLock_def store_call_def)

theorem lock_errors_swallowed_witness:
  "isUpdateProcessRunning broken_store_env held_world = (False, held_world\<lparr>tick := 1\<rparr>)
   \<and> acquireLock broken_store_env held_world = (False, held_world\<lparr>tick := 1\<rparr>)
   \<and> releaseLock broken_store_env held_world = held_world\<lparr>tick := 1\<rparr>
   \<and> lock_doc held_world \<noteq> None"
proof -
  have a: "io_fault broken_store_env (tick held_world) = Some ''UNAVAILABLE''"
    by (simp add: broken_store_env_def)
  have t: "tick held_world = 0"
    by (simp add: held_world_def two_meals_world_def)
  have l: "lock_doc held_world \<noteq> None"
    by (simp add: held_world_def)
  show ?thesis
    using lock_errors_swallowed [OF a] l by (simp add: t)
qed

text \<open>
  Claim C4. Let the lock document be read successfully and carry an acquisition time.
  If it is older than thirty minutes, the is-active check answers false and calls
  \<^verbatim>\<open>releaseLock\<close>, whose delete removes the document unless the delete itself
  throws. If it is younger than thirty minutes and \<open>locked\<close> is true, the check
  answers true and the store is left as it was.
\<close>

theorem stale_lock_recovery:
  assumes "io_fault e (tick w) = None" and "lock_doc w = Some l" and "timestamp l = Some t"
  shows "(clock w - t > 30 * 60 * 1000 \<longrightarrow>
            fst (isUpdateProcessRunning e w) = False
            \<and> (io_fault e (Suc (tick w)) = None \<longrightarrow>
                 lock_doc (snd (isUpdateProcessRunning e w)) = None))
         \<and> (clock w - t < 30 * 60 * 1000 \<and> locked l \<longrightarrow>
              isUpdateProcessRunning e w = (True, w\<lparr>tick := Suc (tick w)\<rparr>))"
  using assms
  by (auto simp: isUpdateProcessRunning_def releaseLock_def store_call_def TTL_MS_def)

theorem stale_lock_recovery_witness:
  "clock stale_world - 2600000 = 40 * 60 * 1000
   \<and> fst (isUpdateProcessRunning steady_env stale_world) = False
   \<and> lock_doc (snd (isUpdateProcessRunning steady_env stale_world)) = None
   \<and> isUpdateProcessRunning steady_env held_world = (True, held_world\<lparr>tick := 1\<rparr>)"
proof -
  have a: "io_fault steady_env n = None" for n
    by (simp add: steady_env_def)
  have s: "lock_doc stale_world =
      Some \<lparr>locked = True, timestamp = Some 2600000, process_id = ''update_2600000''\<rparr>"
    by (simp add: stale_world_def)
  have h: "lock_doc held_world =
      Some \<lparr>locked = True, timestamp = Some 4999000, process_id = ''update_4999000''\<rparr>"
    by (simp add: held_world_def)
  have c: "clock stale_world = 5000000" "clock held_world = 5000000" "tick held_world = 0"
    by (simp_all add: stale_world_def held_world_def two_meals_world_def)
  show ?thesis
    using stale_lock_recovery [OF a s, of 2600000] stale_lock_recovery [OF a h, of 4999000] a
    by (simp add: c)
qed

section \<open>Effects of the outside calls\<close>

lemma only_touches_refl: "only_touches K w w"
  by (simp add: only_touches_def)

lemma only_touches_trans:
  assumes "only_touches K w w1" and "only_touches L w1 w2"
  shows "only_touches (K \<union> L) w w2"
proof -
  from assms(1) obtain evs1 where 1: "trace w1 = trace w @ evs1"
    "\<forall>i. MealWrite i \<in> set evs1 \<longrightarrow> i \<in> K"
    by (auto simp: only_touches_def)
  from assms(2) obtain evs2 where 2: "trace w2 = trace w1 @ evs2"
    "\<forall>i. MealWrite i \<in> set evs2 \<longrightarrow> i \<in> L"
    by (auto simp: only_touches_def)
  have "trace w2 = trace w @ (evs1 @ evs2)"
    using 1(1) 2(1) by simp
  moreover have "\<forall>i. MealWrite i \<in> set (evs1 @ evs2) \<longrightarrow> i \<in> K \<union> L"
    using 1(2) 2(2) by auto
  ultimately have "\<exists>evs. trace w2 = trace w @ evs
      \<and> (\<forall>i. MealWrite i \<in> set evs \<longrightarrow> i \<in> K \<union> L)"
    by blast
  then show ?thesis
    using assms by (simp add: only_touches_def)
qed

lemma only_touches_mono: "only_touches K w w' \<Longrightarrow> K \<subseteq> L \<Longrightarrow> only_touches L w w'"
  by (auto simp: only_touches_def)

lemma only_touches_same:
  "meals w' = meals w \<Longrightarrow> trace w' = trace w \<Longrightarrow> only_touches K w w'"
  by (simp add: only_touches_def)

lemma only_touches_sleep: "only_touches K w (sleep ms w)"
  by (simp add: only_touches_def sleep_def)

lemma only_touches_store_call: "only_touches K w (snd (store_call e w))"
  by (simp add: only_touches_def store_call_def)

lemma map_fst_patch_meal: "map fst (patch_meal k f ms) = map fst ms"
  by (induction ms) (auto simp: patch_meal_def)

lemma find_meal_patch_other: "k' \<noteq> k \<Longrightarrow> find_meal k' (patch_meal k f ms) = find_meal k' ms"
  by (induction ms) (auto simp: patch_meal_def find_meal_def)

lemma find_meal_patch_same: "find_meal k (patch_meal k f ms) = map_option f (find_meal k ms)"
  by (induction ms) (auto simp: patch_meal_def find_meal_def)

lemma update_meal_effect:
  assumes "update_meal e mealId f w = (r, w1)"
  shows "trace w1 = trace w @ [MealWrite mealId]" and "clock w1 = clock w"
    and "tick w1 = Suc (tick w)"
    and "r \<noteq> None \<Longrightarrow> meals w1 = meals w"
    and "r = None \<Longrightarrow> meals w1 = patch_meal mealId f (meals w)"
  using assms
  by (auto simp: update_meal_def store_call_def split: option.splits)

lemma map_created_time_patch_meal:
  "\<forall>d. created_time (f d) = created_time d \<Longrightarrow>
     map (created_time \<circ> snd) (patch_meal k f ms) = map (created_time \<circ> snd) ms"
  by (induction ms) (auto simp: patch_meal_def)

lemma created_time_patches:
  "created_time (apply_update u now d) = created_time d"
  "created_time (image_patch res now d) = created_time d"
  "created_time (failure_patch msg now d) = created_time d"
  by (simp_all add: apply_update_def image_patch_def failure_patch_def)

lemma only_touches_update_meal:
  "\<forall>d. created_time (f d) = created_time d \<Longrightarrow>
     only_touches {mealId} w (snd (update_meal e mealId f w))"
  by (auto simp: only_touches_def update_meal_def store_call_def map_fst_patch_meal
      map_created_time_patch_meal find_meal_patch_other split: option.splits)

lemma generate_effect:
  assumes "generateEnhancedMealDescription e meal w = (r, w1)"
  shows "w1 = w\<lparr>tick := Suc (tick w), trace := trace w @ [OpenAICall]\<rparr>"
  using assms
  by (auto simp: generateEnhancedMealDescription_def Let_def split: sum.splits if_splits)

section \<open>One meal of the description job\<close>

lemma generate_and_write_effect:
  assumes "generate_and_write e mealId meal w = (r, w1)"
  shows "\<exists>evs. trace w1 = trace w @ evs \<and> calls_and_waits evs = [OpenAICall]"
    and "clock w1 = clock w"
    and "r \<noteq> None \<Longrightarrow> meals w1 = meals w"
    and "tick w < tick w1"
proof -
  obtain g w0 where g: "generateEnhancedMealDescription e meal w = (g, w0)"
    by (cases "generateEnhancedMealDescription e meal w")
  note w0 = generate_effect [OF g]
  have "(\<exists>evs. trace w1 = trace w @ evs \<and> calls_and_waits evs = [OpenAICall])
      \<and> clock w1 = clock w \<and> (r \<noteq> None \<longrightarrow> meals w1 = meals w) \<and> tick w < tick w1"
  proof (cases g)
    case (Inl err)
    with assms g have "w1 = w0"
      by (simp add: generate_and_write_def)
    then have "w1 = w\<lparr>tick := Suc (tick w), trace := trace w @ [OpenAICall]\<rparr>"
      using w0 by simp
    then show ?thesis
      by (simp add: calls_and_waits_def)
  next
    case (Inr u)
    with assms g have u: "update_meal e mealId (apply_update u (clock w0)) w0 = (r, w1)"
      by (simp add: generate_and_write_def)
    show ?thesis
      using update_meal_effect [OF u] w0 by (simp add: calls_and_waits_def)
  qed
  then show "\<exists>evs. trace w1 = trace w @ evs \<and> calls_and_waits evs = [OpenAICall]"
    and "clock w1 = clock w"
    and "r \<noteq> None \<Longrightarrow> meals w1 = meals w"
    and "tick w < tick w1"
    by simp_all
qed

lemma only_touches_generate_and_write:
  "only_touches {mealId} w (snd (generate_and_write e mealId meal w))"
proof -
  obtain g w0 where g: "generateEnhancedMealDescription e meal w = (g, w0)"
    by (cases "generateEnhancedMealDescription e meal w")
  have 0: "only_touches {mealId} w w0"
    using generate_effect [OF g] by (simp add: only_touches_def)
  show ?thesis
  proof (cases g)
    case (Inl err)
    with g 0 show ?thesis by (simp add: generate_and_write_def)
  next
    case (Inr u)
    have "only_touches ({mealId} \<union> {mealId}) w
        (snd (update_meal e mealId (apply_update u (clock w0)) w0))"
      by (rule only_touches_trans [OF 0 only_touches_update_meal])
        (simp add: created_time_patches)
    with g Inr show ?thesis by (simp add: generate_and_write_def)
  qed
qed

lemma only_touches_retry_from:
  "only_touches {mealId} w (snd (retry_from e mealId meal attempt w))"
proof (induction e mealId meal attempt w rule: retry_from.induct)
  case (1 e mealId meal attempt w)
  obtain r w1 where g: "generate_and_write e mealId meal w = (r, w1)"
    by (cases "generate_and_write e mealId meal w")
  have 1: "only_touches {mealId} w w1"
    using only_touches_generate_and_write [of mealId w e meal] g by simp
  show ?case
  proof (cases "attempt \<le> maxRetries \<and> \<not> already_updated meal \<and> r \<noteq> None
      \<and> attempt \<noteq> maxRetries")
    case True
    then obtain err where r: "r = Some err" by auto
    have "only_touches {mealId} (sleep (2 ^ attempt * 1000) w1)
            (snd (retry_from e mealId meal (attempt + 1) (sleep (2 ^ attempt * 1000) w1)))"
      using "1.IH" [OF _ _ g [symmetric] r] True by simp
    then have "only_touches ({mealId} \<union> ({mealId} \<union> {mealId})) w
            (snd (retry_from e mealId meal (attempt + 1) (sleep (2 ^ attempt * 1000) w1)))"
      by (intro only_touches_trans [OF 1] only_touches_trans [OF only_touches_sleep])
    then show ?thesis
      using True g r by (subst retry_from.simps) simp
  next
    case False
    then show ?thesis
      using g 1 by (subst retry_from.simps) (auto simp: only_touches_refl split: option.splits)
  qed
qed

lemma updateSingleMeal_skip:
  "already_updated meal \<Longrightarrow> updateSingleMeal e mealId meal w = (True, w)"
  by (simp add: updateSingleMeal_def retry_from.simps [of _ _ _ "Suc 0"] maxRetries_def)

lemma only_touches_updateSingleMeal:
  "only_touches (if already_updated meal then {} else {mealId}) w
     (snd (updateSingleMeal e mealId meal w))"
proof (cases "already_updated meal")
  case True
  then show ?thesis
    by (simp add: updateSingleMeal_skip only_touches_refl)
next
  case False
  then show ?thesis
    using only_touches_retry_from [of mealId w e meal 1] by (simp add: updateSingleMeal_def)
qed

text \<open>The last attempt: one call, no wait after it.\<close>

lemma retry_from_3:
  assumes "\<not> already_updated meal" and "retry_from e mealId meal 3 w = (ok, w')"
  shows "\<exists>evs. trace w' = trace w @ evs \<and> calls_and_waits evs = [OpenAICall]"
    and "\<not> ok \<Longrightarrow> meals w' = meals w"
proof -
  obtain r w1 where g: "generate_and_write e mealId meal w = (r, w1)"
    by (cases "generate_and_write e mealId meal w")
  from assms g have w': "w' = w1" and ok: "ok = (r = None)"
    by (auto simp: retry_from.simps [of _ _ _ 3] maxRetries_def split: option.splits)
  show "\<exists>evs. trace w' = trace w @ evs \<and> calls_and_waits evs = [OpenAICall]"
    using generate_and_write_effect(1) [OF g] w' by simp
  show "\<not> ok \<Longrightarrow> meals w' = meals w"
    using generate_and_write_effect(3) [OF g] w' ok by simp
qed

text \<open>The second attempt: on failure four seconds of waiting, then the last attempt.\<close>

lemma retry_from_2:
  assumes "\<not> already_updated meal" and "retry_from e mealId meal 2 w = (ok, w')"
  shows "\<exists>evs. trace w' = trace w @ evs
          \<and> (if ok then calls_and_waits evs \<in> {[OpenAICall], [OpenAICall, Sleep 4000, OpenAICall]}
              else calls_and_waits evs = [OpenAICall, Sleep 4000, OpenAICall])"
    and "\<not> ok \<Longrightarrow> meals w' = meals w"
proof -
  obtain r w1 where g: "generate_and_write e mealId meal w = (r, w1)"
    by (cases "generate_and_write e mealId meal w")
  note eff = generate_and_write_effect [OF g]
  from eff(1) obtain evs1 where evs1: "trace w1 = trace w @ evs1"
    "calls_and_waits evs1 = [OpenAICall]"
    by blast
  have both: "(\<exists>evs. trace w' = trace w @ evs
          \<and> (if ok then calls_and_waits evs \<in> {[OpenAICall], [OpenAICall, Sleep 4000, OpenAICall]}
              else calls_and_waits evs = [OpenAICall, Sleep 4000, OpenAICall]))
        \<and> (\<not> ok \<longrightarrow> meals w' = meals w)"
  proof (cases r)
    case None
    with assms g have "ok" "w' = w1"
      by (auto simp: retry_from.simps [of _ _ _ 2] maxRetries_def)
    with evs1 show ?thesis by auto
  next
    case (Some err)
    with assms g have n: "retry_from e mealId meal 3 (sleep 4000 w1) = (ok, w')"
      by (simp add: retry_from.simps [of _ _ _ 2] maxRetries_def)
    from retry_from_3(1) [OF assms(1) n] obtain evs3 where evs3:
      "trace w' = trace (sleep 4000 w1) @ evs3" "calls_and_waits evs3 = [OpenAICall]"
      by blast
    have t: "trace w' = trace w @ (evs1 @ Sleep 4000 # evs3)"
      using evs1(1) evs3(1) by (simp add: sleep_def)
    have c: "calls_and_waits (evs1 @ Sleep 4000 # evs3) = [OpenAICall, Sleep 4000, OpenAICall]"
      using evs1(2) evs3(2) by (simp add: calls_and_waits_def)
    have m: "\<not> ok \<longrightarrow> meals w' = meals w"
      using retry_from_3(2) [OF assms(1) n] eff(3) Some by (simp add: sleep_def)
    show ?thesis
      using t c m by auto
  qed
  from both show "\<exists>evs. trace w' = trace w @ evs
          \<and> (if ok then calls_and_waits evs \<in> {[OpenAICall], [OpenAICall, Sleep 4000, OpenAICall]}
              else calls_and_waits evs = [OpenAICall, Sleep 4000, OpenAICall])"
    and "\<not> ok \<Longrightarrow> meals w' = meals w"
    by simp_all
qed

lemma failed_update_keeps_meals:
  assumes "updateSingleMeal e mealId meal w = (False, w')"
  shows "meals w' = meals w"
proof -
  have nu: "\<not> already_updated meal"
    using assms updateSingleMeal_skip [of meal e mealId w] by auto
  obtain r w1 where g: "generate_and_write e mealId meal w = (r, w1)"
    by (cases "generate_and_write e mealId meal w")
  from assms g nu obtain err where r: "r = Some err"
    by (cases r)
      (auto simp: updateSingleMeal_def retry_from.simps [of _ _ _ "Suc 0"] maxRetries_def)
  with assms g nu have n: "retry_from e mealId meal 2 (sleep 2000 w1) = (False, w')"
    by (simp add: updateSingleMeal_def retry_from.simps [of _ _ _ "Suc 0"] maxRetries_def
        numeral_2_eq_2)
  have "meals w' = meals (sleep 2000 w1)"
    using retry_from_2(2) [OF nu n] by simp
  then show ?thesis
    using generate_and_write_effect(3) [OF g] r by (simp add: sleep_def)
qed

lemma failing_model_run:
  "updateSingleMeal failing_model_env ''a'' (plain_meal ''Tea'' 1) two_meals_world =
       (False, two_meals_world\<lparr>tick := 3, clock := 5006000,
          trace := [OpenAICall, Sleep 2000, OpenAICall, Sleep 4000, OpenAICall]\<rparr>)"
  by (simp add: updateSingleMeal_def retry_from.simps maxRetries_def already_updated_def
      plain_meal_def generate_and_write_def generateEnhancedMealDescription_def
      failing_model_env_def sleep_def two_meals_world_def)

lemma retry_trace_shape:
  assumes "\<not> already_updated meal" and "updateSingleMeal e mealId meal w = (ok, w')"
  shows "\<exists>evs. trace w' = trace w @ evs
          \<and> (if ok
              then \<exists>k<3. calls_and_waits evs
                     = take (2 * k + 1) [OpenAICall, Sleep 2000, OpenAICall, Sleep 4000, OpenAICall]
              else calls_and_waits evs
                     = [OpenAICall, Sleep 2000, OpenAICall, Sleep 4000, OpenAICall])"
proof -
  obtain r w1 where g: "generate_and_write e mealId meal w = (r, w1)"
    by (cases "generate_and_write e mealId meal w")
  from generate_and_write_effect(1) [OF g] obtain evs1 where evs1:
    "trace w1 = trace w @ evs1" "calls_and_waits evs1 = [OpenAICall]"
    by blast
  show ?thesis
  proof (cases r)
    case None
    with assms g have "ok" "w' = w1"
      by (auto simp: updateSingleMeal_def retry_from.simps [of _ _ _ "Suc 0"] maxRetries_def)
    moreover have "calls_and_waits evs1
        = take (2 * 0 + 1) [OpenAICall, Sleep 2000, OpenAICall, Sleep 4000, OpenAICall]"
      using evs1(2) by simp
    ultimately show ?thesis
      using evs1(1) by (metis zero_less_numeral)
  next
    case (Some err)
    with assms g have n: "retry_from e mealId meal 2 (sleep 2000 w1) = (ok, w')"
      by (simp add: updateSingleMeal_def retry_from.simps [of _ _ _ "Suc 0"] maxRetries_def
          numeral_2_eq_2)
    from retry_from_2(1) [OF assms(1) n] obtain evs2 where evs2:
      "trace w' = trace (sleep 2000 w1) @ evs2"
      "if ok then calls_and_waits evs2 \<in> {[OpenAICall], [OpenAICall, Sleep 4000, OpenAICall]}
       else calls_and_waits evs2 = [OpenAICall, Sleep 4000, OpenAICall]"
      by blast
    have t: "trace w' = trace w @ (evs1 @ Sleep 2000 # evs2)"
      using evs1(1) evs2(1) by (simp add: sleep_def)
    have c: "calls_and_waits (evs1 @ Sleep 2000 # evs2)
               = OpenAICall # Sleep 2000 # calls_and_waits evs2"
      using evs1(2) by (simp add: calls_and_waits_def)
    show ?thesis
    proof (cases ok)
      case False
      with evs2(2) c t show ?thesis by auto
    next
      case True
      with evs2(2) consider "calls_and_waits evs2 = [OpenAICall]"
        | "calls_and_waits evs2 = [OpenAICall, Sleep 4000, OpenAICall]"
        by auto
      then show ?thesis
      proof cases
        case 1
        then have "calls_and_waits (evs1 @ Sleep 2000 # evs2)
            = take (2 * 1 + 1) [OpenAICall, Sleep 2000, OpenAICall, Sleep 4000, OpenAICall]"
          using c by simp
        moreover have "(1::nat) < 3" by simp
        ultimately show ?thesis using t True by metis
      next
        case 2
        then have "calls_and_waits (evs1 @ Sleep 2000 # evs2)
            = take (2 * 2 + 1) [OpenAICall, Sleep 2000, OpenAICall, Sleep 4000, OpenAICall]"
          using c by simp
        moreover have "(2::nat) < 3" by simp
        ultimately show ?thesis using t True by metis
      qed
    qed
  qed
qed

lemma generate_and_write_outcome:
  "fst (generate_and_write e mealId meal v) = None \<longleftrightarrow> attempt_succeeds e mealId meal v"
  by (auto simp: generate_and_write_def generateEnhancedMealDescription_def update_meal_def
      store_call_def attempt_succeeds_def Let_def split: sum.splits option.splits)

text \<open>The loop of \<^verbatim>\<open>updateSingleMeal\<close>, attempt by attempt.\<close>

lemma updateSingleMeal_unrolled:
  assumes "\<not> already_updated meal"
  shows "updateSingleMeal e mealId meal w =
           (case generate_and_write e mealId meal w of
              (None, w1) \<Rightarrow> (True, w1)
            | (Some err1, w1) \<Rightarrow>
                (case generate_and_write e mealId meal (sleep 2000 w1) of
                   (None, w2) \<Rightarrow> (True, w2)
                 | (Some err2, w2) \<Rightarrow>
                     (case generate_and_write e mealId meal (sleep 4000 w2) of
                        (None, w3) \<Rightarrow> (True, w3)
                      | (Some err3, w3) \<Rightarrow> (False, w3))))"
proof -
  have third: "retry_from e mealId meal 3 v =
      (case generate_and_write e mealId meal v of
         (None, w3) \<Rightarrow> (True, w3) | (Some err3, w3) \<Rightarrow> (False, w3))" for v
    using assms
    by (simp add: retry_from.simps [of _ _ _ 3] maxRetries_def split: prod.splits option.splits)
  have second: "retry_from e mealId meal 2 v =
      (case generate_and_write e mealId meal v of
         (None, w2) \<Rightarrow> (True, w2)
       | (Some err2, w2) \<Rightarrow> retry_from e mealId meal 3 (sleep 4000 w2))" for v
    using assms
    by (simp add: retry_from.simps [of _ _ _ 2] maxRetries_def split: prod.splits option.splits)
  have first: "retry_from e mealId meal 1 v =
      (case generate_and_write e mealId meal v of
         (None, w1) \<Rightarrow> (True, w1)
       | (Some err1, w1) \<Rightarrow> retry_from e mealId meal 2 (sleep 2000 w1))" for v
    using assms
    by (simp add: retry_from.simps [of _ _ _ "Suc 0"] maxRetries_def numeral_2_eq_2
        split: prod.splits option.splits)
  show ?thesis
    unfolding updateSingleMeal_def first second third ..
qed

lemma flaky_model_run:
  "updateSingleMeal flaky_model_env ''a'' (plain_meal ''Tea'' 1) two_meals_world =
     (True, two_meals_world\<lparr>tick := 3, clock := 5002000,
        trace := [OpenAICall, Sleep 2000, OpenAICall, MealWrite ''a''],
        meals := [(''b'', plain_meal ''Soup'' 2),
                  (''a'', apply_update full_update 5002000 (plain_meal ''Tea'' 1))]\<rparr>)"
  by (simp add: updateSingleMeal_def retry_from.simps maxRetries_def already_updated_def
      plain_meal_def generate_and_write_def generateEnhancedMealDescription_def
      flaky_model_env_def sleep_def two_meals_world_def update_meal_def store_call_def
      find_meal_def patch_meal_def full_update_def)

text \<open>
  Claim C8. Call an attempt the body of the \<^verbatim>\<open>try\<close> block: one call to the text
  model and, when the answer is well formed, the write. An attempt succeeds exactly
  when the model answers with a well-formed object, the write does not throw and the
  document exists. For a meal that still lacks the new fields \<^verbatim>\<open>updateSingleMeal\<close>
  runs the first attempt and answers true if it succeeds; otherwise it waits 2000 ms and
  runs the second, answering true if that one succeeds; otherwise it waits 4000 ms and
  runs the third, and answers what the third gives: false only when all three attempts
  have failed. Every attempt makes exactly one call, so a false answer has the trace
  call, wait 2000, call, wait 4000, call, and a true answer a prefix of it ending in
  a call.
\<close>

theorem retry_budget_and_backoff:
  assumes "\<not> already_updated meal"
  shows "updateSingleMeal e mealId meal w =
           (case generate_and_write e mealId meal w of
              (None, w1) \<Rightarrow> (True, w1)
            | (Some err1, w1) \<Rightarrow>
                (case generate_and_write e mealId meal (sleep 2000 w1) of
                   (None, w2) \<Rightarrow> (True, w2)
                 | (Some err2, w2) \<Rightarrow>
                     (case generate_and_write e mealId meal (sleep 4000 w2) of
                        (None, w3) \<Rightarrow> (True, w3)
                      | (Some err3, w3) \<Rightarrow> (False, w3))))
         \<and> (fst (generate_and_write e mealId meal v) = None
              \<longleftrightarrow> attempt_succeeds e mealId meal v)
         \<and> (\<exists>evs. trace (snd (generate_and_write e mealId meal v)) = trace v @ evs
                \<and> calls_and_waits evs = [OpenAICall])
         \<and> (\<exists>evs. trace (snd (updateSingleMeal e mealId meal w)) = trace w @ evs
                \<and> (if fst (updateSingleMeal e mealId meal w)
                    then \<exists>k<3. calls_and_waits evs
                           = take (2 * k + 1)
                               [OpenAICall, Sleep 2000, OpenAICall, Sleep 4000, OpenAICall]
                    else calls_and_waits evs
                           = [OpenAICall, Sleep 2000, OpenAICall, Sleep 4000, OpenAICall]))"
proof -
  obtain r v1 where g: "generate_and_write e mealId meal v = (r, v1)"
    by (cases "generate_and_write e mealId meal v")
  have one_call: "\<exists>evs. trace (snd (generate_and_write e mealId meal v)) = trace v @ evs
      \<and> calls_and_waits evs = [OpenAICall]"
    using generate_and_write_effect(1) [OF g] g by simp
  obtain ok w' where run: "updateSingleMeal e mealId meal w = (ok, w')"
    by (cases "updateSingleMeal e mealId meal w")
  have shape: "\<exists>evs. trace (snd (updateSingleMeal e mealId meal w)) = trace w @ evs
      \<and> (if fst (updateSingleMeal e mealId meal w)
          then \<exists>k<3. calls_and_waits evs
                 = take (2 * k + 1) [OpenAICall, Sleep 2000, OpenAICall, Sleep 4000, OpenAICall]
          else calls_and_waits evs
                 = [OpenAICall, Sleep 2000, OpenAICall, Sleep 4000, OpenAICall])"
    using retry_trace_shape [OF assms run] run by simp
  from updateSingleMeal_unrolled [OF assms] generate_and_write_outcome one_call shape
  show ?thesis by blast
qed

theorem retry_budget_and_backoff_witness:
  "\<not> already_updated (plain_meal ''Tea'' 1)
   \<and> \<not> attempt_succeeds failing_model_env ''a'' (plain_meal ''Tea'' 1) two_meals_world
   \<and> updateSingleMeal failing_model_env ''a'' (plain_meal ''Tea'' 1) two_meals_world =
       (False, two_meals_world\<lparr>tick := 3, clock := 5006000,
          trace := [OpenAICall, Sleep 2000, OpenAICall, Sleep 4000, OpenAICall]\<rparr>)
   \<and> fst (generate_and_write flaky_model_env ''a'' (plain_meal ''Tea'' 1) two_meals_world)
       \<noteq> None
   \<and> fst (updateSingleMeal flaky_model_env ''a'' (plain_meal ''Tea'' 1) two_meals_world) = True
   \<and> trace (snd (updateSingleMeal flaky_model_env ''a'' (plain_meal ''Tea'' 1) two_meals_world))
       = [OpenAICall, Sleep 2000, OpenAICall, MealWrite ''a'']"
proof -
  have h: "\<not> already_updated (plain_meal ''Tea'' 1)"
    by (simp add: already_updated_def plain_meal_def)
  have f: "\<not> attempt_succeeds failing_model_env ''a'' (plain_meal ''Tea'' 1) two_meals_world"
    by (simp add: attempt_succeeds_def failing_model_env_def)
  have g: "\<not> attempt_succeeds flaky_model_env ''a'' (plain_meal ''Tea'' 1) two_meals_world"
    by (simp add: attempt_succeeds_def flaky_model_env_def two_meals_world_def)
  from retry_budget_and_backoff
    [OF h, of flaky_model_env "''a''" two_meals_world two_meals_world] g
  have first_fails:
    "fst (generate_and_write flaky_model_env ''a'' (plain_meal ''Tea'' 1) two_meals_world)
       \<noteq> None"
    by blast
  show ?thesis
    using h f first_fails by (simp add: failing_model_run flaky_model_run)
qed

section \<open>One page of the description job\<close>

lemma update_docs_counts:
  "update_docs e ds (p, u, l) w = ((p', u', l'), w') \<Longrightarrow>
     p' = p + length ds \<and> u \<le> u' \<and> u' \<le> u + length ds
     \<and> l' = (if ds = [] then l else fst (last ds))"
proof (induction ds arbitrary: p u l w)
  case Nil
  then show ?case by simp
next
  case (Cons x ds)
  obtain i d where x: "x = (i, d)" by (cases x)
  obtain ok w1 where s: "updateSingleMeal e i d w = (ok, w1)"
    by (cases "updateSingleMeal e i d w")
  from Cons.prems x s
  have "update_docs e ds (p + 1, if ok then u + 1 else u, i) w1 = ((p', u', l'), w')"
    by simp
  from Cons.IH [OF this] show ?case
    using x by (auto split: if_splits)
qed

lemma update_docs_all_skipped:
  "\<forall>(i, d) \<in> set ds. already_updated d \<Longrightarrow>
     update_docs e ds (p, u, l) w =
       ((p + length ds, u + length ds, if ds = [] then l else fst (last ds)), w)"
  by (induction ds arbitrary: p u l) (auto simp: updateSingleMeal_skip)

lemma only_touches_update_docs:
  "only_touches {i. \<exists>d. (i, d) \<in> set ds \<and> \<not> already_updated d} w
     (snd (update_docs e ds acc w))"
proof (induction ds arbitrary: acc w)
  case Nil
  then show ?case by (simp add: only_touches_refl)
next
  case (Cons x ds)
  obtain i d where x: "x = (i, d)" by (cases x)
  obtain p u l where acc: "acc = (p, u, l)" by (cases acc)
  obtain ok w1 where s: "updateSingleMeal e i d w = (ok, w1)"
    by (cases "updateSingleMeal e i d w")
  let ?K = "{i. \<exists>d. (i, d) \<in> set ds \<and> \<not> already_updated d}"
  let ?acc = "(p + 1, if ok then u + 1 else u, i)"
  have 1: "only_touches (if already_updated d then {} else {i}) w w1"
    using only_touches_updateSingleMeal [of d i w e] s by simp
  have "only_touches ((if already_updated d then {} else {i}) \<union> ?K) w
      (snd (update_docs e ds ?acc w1))"
    by (rule only_touches_trans [OF 1 Cons.IH])
  then have "only_touches {j. \<exists>d'. (j, d') \<in> set (x # ds) \<and> \<not> already_updated d'} w
      (snd (update_docs e ds ?acc w1))"
    by (rule only_touches_mono) (auto simp: x)
  then show ?case
    using x acc s by simp
qed

lemma set_query_by_created_time: "set (query_by_created_time startDoc ms) \<subseteq> set ms"
  by (auto simp: query_by_created_time_def by_created_time_def split: option.splits
      dest!: in_set_takeD)

lemma read_start_doc_frame:
  "meals (snd (read_start_doc e startAfter w)) = meals w"
  "trace (snd (read_start_doc e startAfter w)) = trace w"
  by (auto simp: read_start_doc_def store_call_def split: option.splits)

lemma read_start_doc_result:
  "read_start_doc e startAfter w = (Inr sd, w1) \<Longrightarrow> sd = start_doc_of startAfter (meals w)"
  by (auto simp: read_start_doc_def start_doc_of_def store_call_def
      split: option.splits if_splits)

text \<open>The world in which the page of \<^verbatim>\<open>updateMealsInBatches\<close> is processed.\<close>

lemma updateMealsInBatches_cases:
  assumes "updateMealsInBatches e startAfter w = (res, w')"
  obtains (failed) err where "res = Inl err" "meals w' = meals w" "trace w' = trace w"
  | (empty) "res = Inr \<lparr>r_processed = 0, r_updated = 0, r_hasMore = False,
                         r_lastProcessedId = None\<rparr>"
      "meals w' = meals w" "trace w' = trace w"
  | (page) docs w2 p u l where "docs \<noteq> []" "set docs \<subseteq> set (meals w)"
      "docs = query_by_created_time (start_doc_of startAfter (meals w)) (meals w)"
      "meals w2 = meals w" "trace w2 = trace w"
      "update_docs e docs (0, 0, []) w2 = ((p, u, l), w')"
      "res = Inr \<lparr>r_processed = p, r_updated = u, r_hasMore = (p = BATCH_SIZE),
                   r_lastProcessedId = Some l\<rparr>"
proof -
  obtain sd w1 where sd: "read_start_doc e startAfter w = (sd, w1)"
    by (cases "read_start_doc e startAfter w")
  have w1: "meals w1 = meals w" "trace w1 = trace w"
    using read_start_doc_frame [of e startAfter w] sd by simp_all
  show thesis
  proof (cases sd)
    case (Inl err)
    with assms sd w1 show thesis
      by (intro failed [of err]) (auto simp: updateMealsInBatches_def)
  next
    case (Inr startDoc)
    obtain f w2 where sc: "store_call e w1 = (f, w2)"
      by (cases "store_call e w1")
    then have w2: "meals w2 = meals w" "trace w2 = trace w"
      using w1 by (auto simp: store_call_def)
    show thesis
    proof (cases f)
      case (Some msg)
      with assms sd Inr sc w2 show thesis
        by (intro failed [of "Error msg"]) (auto simp: updateMealsInBatches_def)
    next
      case None
      let ?docs = "query_by_created_time startDoc (meals w2)"
      show thesis
      proof (cases "?docs = []")
        case True
        with assms sd Inr sc None w2 show thesis
          by (intro empty) (auto simp: updateMealsInBatches_def)
      next
        case False
        obtain p u l w3 where ud: "update_docs e ?docs (0, 0, []) w2 = ((p, u, l), w3)"
          by (metis prod_cases3 surj_pair)
        have sub: "set ?docs \<subseteq> set (meals w)"
          using set_query_by_created_time [of startDoc "meals w2"] w2 by simp
        from assms sd Inr sc None False ud
        have w3: "w3 = w'" and res: "res = Inr \<lparr>r_processed = p, r_updated = u,
            r_hasMore = (p = BATCH_SIZE), r_lastProcessedId = Some l\<rparr>"
          by (auto simp: updateMealsInBatches_def Let_def)
        from ud w3 have ud': "update_docs e ?docs (0, 0, []) w2 = ((p, u, l), w')"
          by simp
        have eq: "?docs = query_by_created_time (start_doc_of startAfter (meals w)) (meals w)"
          using read_start_doc_result [of e startAfter w startDoc w1] sd Inr w2 by simp
        show thesis
          by (rule page [OF False sub eq w2 ud' res])
      qed
    qed
  qed
qed

lemma only_touches_updateMealsInBatches:
  "only_touches {i. \<exists>d. (i, d) \<in> set (meals w) \<and> \<not> already_updated d} w
     (snd (updateMealsInBatches e startAfter w))"
proof -
  obtain res w' where r: "updateMealsInBatches e startAfter w = (res, w')"
    by (cases "updateMealsInBatches e startAfter w")
  from r have "only_touches {i. \<exists>d. (i, d) \<in> set (meals w) \<and> \<not> already_updated d} w w'"
  proof (cases rule: updateMealsInBatches_cases)
    case (failed err)
    then show ?thesis by (simp add: only_touches_same)
  next
    case empty
    then show ?thesis by (simp add: only_touches_same)
  next
    case (page docs w2 p u l)
    have 0: "only_touches {} w w2"
      using page(4,5) by (simp add: only_touches_same)
    have "only_touches {i. \<exists>d. (i, d) \<in> set docs \<and> \<not> already_updated d} w2 w'"
      using only_touches_update_docs [of docs w2 e "(0, 0, [])"] page(6) by simp
    from only_touches_trans [OF 0 this] show ?thesis
      by (rule only_touches_mono) (use page(2) in auto)
  qed
  with r show ?thesis by simp
qed

lemma two_enriched_page:
  "updateMealsInBatches steady_env None enriched_world =
     (Inr \<lparr>r_processed = 2, r_updated = 2, r_hasMore = False, r_lastProcessedId = Some ''b''\<rparr>,
      enriched_world\<lparr>tick := 1\<rparr>)"
  by (simp add: updateMealsInBatches_def read_start_doc_def store_call_def steady_env_def
      enriched_world_def query_by_created_time_def by_created_time_def BATCH_SIZE_def
      enriched_meal_def plain_meal_def updateSingleMeal_def retry_from.simps maxRetries_def
      already_updated_def)

text \<open>
  Claim C10. A meal that already has the new fields makes \<^verbatim>\<open>updateSingleMeal\<close>
  answer true without any outside call, and \<^verbatim>\<open>updateMealsInBatches\<close> counts every
  true answer as an update. So on a collection whose meals all have the new fields the
  summary reports as many updates as documents processed, while no write was issued and
  the collection is what it was.
\<close>

theorem skipped_meals_count_as_updated:
  "(already_updated meal \<longrightarrow> updateSingleMeal e mealId meal w = (True, w))
   \<and> ((\<forall>(i, d) \<in> set (meals w). already_updated d)
        \<and> updateMealsInBatches e startAfter w = (Inr r, w') \<longrightarrow>
      r_updated r = r_processed r \<and> meals w' = meals w \<and> trace w' = trace w)"
proof -
  have skip: "already_updated meal \<longrightarrow> updateSingleMeal e mealId meal w = (True, w)"
    by (simp add: updateSingleMeal_skip)
  have page: "r_updated r = r_processed r \<and> meals w' = meals w \<and> trace w' = trace w"
    if a: "\<forall>(i, d) \<in> set (meals w). already_updated d"
      and r: "updateMealsInBatches e startAfter w = (Inr r, w')"
    using r
  proof (cases rule: updateMealsInBatches_cases)
    case (failed err)
    then show ?thesis by simp
  next
    case empty
    then show ?thesis by simp
  next
    case (page docs w2 p u l)
    have "\<forall>(i, d) \<in> set docs. already_updated d"
      using a page(2) by auto
    from update_docs_all_skipped [OF this, of e 0 0 "[]" w2] page
    show ?thesis by simp
  qed
  from skip page show ?thesis by blast
qed

theorem skipped_meals_count_as_updated_witness:
  "already_updated (enriched_meal ''Tea'' 1)
   \<and> list_all (\<lambda>(i, d). already_updated d) (meals enriched_world)
   \<and> updateSingleMeal steady_env ''a'' (enriched_meal ''Tea'' 1) enriched_world
        = (True, enriched_world)
   \<and> updateMealsInBatches steady_env None enriched_world =
       (Inr \<lparr>r_processed = 2, r_updated = 2, r_hasMore = False,
             r_lastProcessedId = Some ''b''\<rparr>, enriched_world\<lparr>tick := 1\<rparr>)
   \<and> trace (enriched_world\<lparr>tick := 1\<rparr>) = []
   \<and> meals (enriched_world\<lparr>tick := 1\<rparr>) = meals enriched_world"
proof -
  have a: "already_updated (enriched_meal ''Tea'' 1)"
    by (simp add: already_updated_def enriched_meal_def plain_meal_def)
  have b: "\<forall>(i, d) \<in> set (meals enriched_world). already_updated d"
    by (simp add: already_updated_def enriched_meal_def plain_meal_def enriched_world_def)
  have t: "trace enriched_world = []"
    by (simp add: enriched_world_def)
  show ?thesis
    using skipped_meals_count_as_updated
      [of "enriched_meal ''Tea'' 1" steady_env "''a''" enriched_world None
        "\<lparr>r_processed = 2, r_updated = 2, r_hasMore = False, r_lastProcessedId = Some ''b''\<rparr>"
        "enriched_world\<lparr>tick := 1\<rparr>"]
      a b two_enriched_page t
    by (simp add: list_all_iff)
qed

section \<open>One page of the image job\<close>

lemma generateRecraftFoodImage_effect:
  assumes "generateRecraftFoodImage e opts w = (r, w1)"
  shows "w1 = w\<lparr>tick := Suc (tick w), trace := trace w @ [RecraftCall (englishTitle opts)]\<rparr>"
    and "r = (case recraft e (tick w) opts of Inl msg \<Rightarrow> Inl (Error msg) | Inr x \<Rightarrow> Inr x)"
  using assms
  by (auto simp: generateRecraftFoodImage_def Let_def split: sum.splits)

lemma only_touches_regenerate_one:
  "only_touches {mealId} w (snd (regenerate_one e mealId d w))"
proof -
  obtain g w0 where g: "generateRecraftFoodImage e (recraft_options_of d) w = (g, w0)"
    by (cases "generateRecraftFoodImage e (recraft_options_of d) w")
  have 0: "only_touches {mealId} w w0"
    using generateRecraftFoodImage_effect(1) [OF g] by (simp add: only_touches_def)
  show ?thesis
  proof (cases g)
    case (Inl err)
    with g 0 show ?thesis by (simp add: regenerate_one_def)
  next
    case (Inr res)
    obtain u w1 where u: "update_meal e mealId (image_patch res (clock w0)) w0 = (u, w1)"
      by (cases "update_meal e mealId (image_patch res (clock w0)) w0")
    have 1: "only_touches ({mealId} \<union> {mealId}) w w1"
      using only_touches_trans
          [OF 0 only_touches_update_meal [of "image_patch res (clock w0)" mealId w0 e]] u
      by (simp add: created_time_patches)
    have 2: "only_touches (({mealId} \<union> {mealId}) \<union> {mealId}) w (sleep 500 w1)"
      by (rule only_touches_trans [OF 1 only_touches_sleep])
    from g Inr u 1 2 show ?thesis
      by (cases u) (simp_all add: regenerate_one_def)
  qed
qed

lemma only_touches_markMealImageFailed:
  "only_touches {mealId} w (markMealImageFailed e mealId msg w)"
  by (simp add: markMealImageFailed_def only_touches_update_meal created_time_patches)

lemma only_touches_regenerate_docs:
  "only_touches (written_ids ds) w (snd (regenerate_docs e ds acc w))"
proof (induction ds arbitrary: acc w)
  case Nil
  then show ?case by (simp add: only_touches_refl)
next
  case (Cons x ds)
  obtain i d where x: "x = (i, d)" by (cases x)
  obtain p g f where acc: "acc = (p, g, f)" by (cases acc)
  let ?t = "meal_id_of i d"
  have ids: "written_ids ((i, d) # ds) = insert ?t (written_ids ds)"
    by (simp add: written_ids_def)
  show ?case
  proof (cases "?t = [] \<or> english_title d = []")
    case True
    have "only_touches (written_ids ds) w (snd (regenerate_docs e ds (p + 1, g, f) w))"
      by (rule Cons.IH)
    then have "only_touches (written_ids (x # ds)) w
        (snd (regenerate_docs e ds (p + 1, g, f) w))"
      by (rule only_touches_mono) (auto simp: ids x)
    with True x acc show ?thesis by simp
  next
    case False
    obtain r w1 where r: "regenerate_one e ?t d w = (r, w1)"
      by (cases "regenerate_one e ?t d w")
    have 1: "only_touches {?t} w w1"
      using only_touches_regenerate_one [of ?t w e d] r by simp
    show ?thesis
    proof (cases r)
      case None
      have "only_touches ({?t} \<union> written_ids ds) w
          (snd (regenerate_docs e ds (p + 1, g + 1, f) w1))"
        by (rule only_touches_trans [OF 1 Cons.IH])
      with False x acc r None show ?thesis by (simp add: ids)
    next
      case (Some err)
      obtain msg where err: "err = Error msg" by (cases err)
      have 2: "only_touches ({?t} \<union> {?t}) w (markMealImageFailed e ?t msg w1)"
        by (rule only_touches_trans [OF 1 only_touches_markMealImageFailed])
      have "only_touches (({?t} \<union> {?t}) \<union> written_ids ds) w
          (snd (regenerate_docs e ds (p + 1, g, f + 1) (markMealImageFailed e ?t msg w1)))"
        by (rule only_touches_trans [OF 2 Cons.IH])
      with False x acc r Some err show ?thesis by (simp add: ids Un_assoc)
    qed
  qed
qed

lemma set_query_by_id: "set (query_by_id cursor ms) \<subseteq> set ms"
  by (auto simp: query_by_id_def by_id_def split: option.splits dest!: in_set_takeD)

lemma scan_page_effect:
  assumes "scan_page e w = (r, w1)"
  shows "meals w1 = meals w" and "trace w1 = trace w" and "state_doc w1 = state_doc w"
    and "clock w1 = clock w"
    and "\<And>docs. r = Inr docs \<Longrightarrow> docs = page_of w \<and> tick w1 = tick w + 2"
  using assms
  by (auto simp: scan_page_def getScanState_def store_call_def page_of_def
      split: option.splits)

lemma advance_and_return_frame:
  "meals (snd (advance_and_return e l f s w)) = meals w"
  "trace (snd (advance_and_return e l f s w)) = trace w"
  by (auto simp: advance_and_return_def setScanState_def store_call_def split: option.splits)

lemma only_touches_generateImagesBatch:
  "only_touches (written_ids (selected w)) w (snd (generateImagesBatch e w))"
proof -
  obtain r w1 where s: "scan_page e w = (r, w1)"
    by (cases "scan_page e w")
  note eff = scan_page_effect [OF s]
  show ?thesis
  proof (cases r)
    case (Inl err)
    with s eff show ?thesis
      by (simp add: generateImagesBatch_def only_touches_same)
  next
    case (Inr docs)
    with eff have docs: "docs = page_of w" by simp
    let ?cands = "filter (\<lambda>(i, d). needs_image d) docs"
    show ?thesis
    proof (cases "docs = [] \<or> ?cands = []")
      case True
      then show ?thesis
        using s Inr eff(1,2)
        by (auto simp: generateImagesBatch_def Let_def advance_and_return_frame
            intro!: only_touches_same)
    next
      case False
      obtain acc w2 where rd: "regenerate_docs e (take IMAGE_BATCH_SIZE ?cands) (0, 0, 0) w1
          = (acc, w2)"
        by (cases "regenerate_docs e (take IMAGE_BATCH_SIZE ?cands) (0, 0, 0) w1")
      obtain p g f where acc: "acc = (p, g, f)" by (cases acc)
      have 0: "only_touches {} w w1"
        using eff(1,2) by (simp add: only_touches_same)
      have 1: "only_touches (written_ids (selected w)) w1 w2"
        using only_touches_regenerate_docs [of "take IMAGE_BATCH_SIZE ?cands" w1 e "(0, 0, 0)"]
          rd docs by (simp add: selected_def)
      let ?w3 = "snd (advance_and_return e (Some (fst (last docs)))
          (\<not> length docs = SCAN_PAGE_SIZE)
          \<lparr>b_processed = p, b_generated = g, b_failed = f,
           b_hasMore = (length docs = SCAN_PAGE_SIZE)\<rparr> w2)"
      have 2: "only_touches {} w2 ?w3"
        by (simp add: advance_and_return_frame only_touches_same)
      have "only_touches (({} \<union> written_ids (selected w)) \<union> {}) w ?w3"
        by (rule only_touches_trans [OF only_touches_trans [OF 0 1] 2])
      then show ?thesis
        using s Inr False rd acc by (simp add: generateImagesBatch_def Let_def)
    qed
  qed
qed

section \<open>Records that need no work\<close>

lemma only_touches_updateSingleBatchOnly:
  "only_touches {i. \<exists>d. (i, d) \<in> set (meals w) \<and> \<not> already_updated d} w
     (snd (updateSingleBatchOnly e w))"
proof -
  let ?K = "{i. \<exists>d. (i, d) \<in> set (meals w) \<and> \<not> already_updated d}"
  obtain f w1 where sc: "store_call e w = (f, w1)"
    by (cases "store_call e w")
  then have w1: "meals w1 = meals w" "trace w1 = trace w"
    by (auto simp: store_call_def)
  show ?thesis
  proof (cases f)
    case (Some msg)
    with sc w1 show ?thesis
      by (simp add: updateSingleBatchOnly_def only_touches_same)
  next
    case None
    let ?sa = "case progress_doc w1 of None \<Rightarrow> None | Some p \<Rightarrow> lastProcessedId p"
    obtain res w2 where b: "updateMealsInBatches e ?sa w1 = (res, w2)"
      by (cases "updateMealsInBatches e ?sa w1")
    have "only_touches {i. \<exists>d. (i, d) \<in> set (meals w1) \<and> \<not> already_updated d} w1 w2"
      using only_touches_updateMealsInBatches [of w1 e ?sa] b by simp
    then have 2: "only_touches ?K w w2"
      using w1 by (simp add: only_touches_def)
    show ?thesis
    proof (cases res)
      case (Inl err)
      with sc None b 2 show ?thesis
        by (simp add: updateSingleBatchOnly_def Let_def)
    next
      case (Inr result)
      obtain f3 w3 where sc3: "store_call e w2 = (f3, w3)"
        by (cases "store_call e w2")
      then have "meals w3 = meals w2" "trace w3 = trace w2"
        by (auto simp: store_call_def)
      with 2 have 3: "only_touches ?K w w3"
        by (simp add: only_touches_def)
      then have 4: "only_touches ?K w (w3\<lparr>progress_doc := p\<rparr>)" for p
        by (simp add: only_touches_def)
      from sc None b Inr sc3 3 4 show ?thesis
        by (cases f3) (simp_all add: updateSingleBatchOnly_def Let_def)
    qed
  qed
qed

lemma untouched_outside:
  assumes "only_touches K w w'" and "k \<notin> K"
  shows "find_meal k (meals w') = find_meal k (meals w)"
    and "\<exists>evs. trace w' = trace w @ evs \<and> MealWrite k \<notin> set evs"
  using assms by (auto simp: only_touches_def)

lemma aliased_selected:
  "selected aliased_world = [(''m1'', (plain_meal ''A'' 1)\<lparr>id_field := Some ''m2''\<rparr>)]"
  by (simp add: selected_def page_of_def query_by_id_def by_id_def cursor_of_def
      empty_scan_state_def aliased_world_def SCAN_PAGE_SIZE_def IMAGE_BATCH_SIZE_def
      needs_image_def english_title_def plain_meal_def done_meal_def enriched_meal_def)

lemma aliased_run:
  "meals (snd (generateImagesBatch steady_env aliased_world)) =
     [(''m1'', (plain_meal ''A'' 1)\<lparr>id_field := Some ''m2''\<rparr>),
      (''m2'', image_patch \<lparr>photoUrl = ''u'', blurhash_of = ''b''\<rparr> 5000000 (done_meal ''B'' 2))]"
  "trace (snd (generateImagesBatch steady_env aliased_world))
     = [RecraftCall ''A'', MealWrite ''m2'', Sleep 500]"
  by (simp_all add: generateImagesBatch_def scan_page_def getScanState_def store_call_def
      steady_env_def aliased_world_def query_by_id_def by_id_def cursor_of_def
      empty_scan_state_def SCAN_PAGE_SIZE_def IMAGE_BATCH_SIZE_def needs_image_def
      english_title_def english_description_def plain_meal_def done_meal_def
      enriched_meal_def meal_id_of_def
      regenerate_one_def generateRecraftFoodImage_def recraft_options_of_def update_meal_def
      find_meal_def patch_meal_def sleep_def advance_and_return_def setScanState_def Let_def)

text \<open>
  Claim C9, as the specification words it, has every record that fails the eligibility
  test left unchanged by a batch invocation. The image loop writes to the document named
  by \<^verbatim>\<open>meal.id\<close>, and an id stored in the data of a candidate replaces the document
  id there. Here m2 already has its image from the current provider and m1, a candidate,
  stores the id m2: the invocation writes the new image to m2.
\<close>

theorem aliased_write_counterexample:
  "distinct (map fst (meals aliased_world))
   \<and> find_meal ''m2'' (meals aliased_world) = Some (done_meal ''B'' 2)
   \<and> \<not> needs_image (done_meal ''B'' 2)
   \<and> find_meal ''m2'' (meals (snd (generateImagesBatch steady_env aliased_world)))
       = Some (image_patch \<lparr>photoUrl = ''u'', blurhash_of = ''b''\<rparr> 5000000 (done_meal ''B'' 2))
   \<and> image_patch \<lparr>photoUrl = ''u'', blurhash_of = ''b''\<rparr> 5000000 (done_meal ''B'' 2)
       \<noteq> done_meal ''B'' 2
   \<and> trace (snd (generateImagesBatch steady_env aliased_world))
       = [RecraftCall ''A'', MealWrite ''m2'', Sleep 500]"
proof -
  have a: "distinct (map fst (meals aliased_world))"
    "find_meal ''m2'' (meals aliased_world) = Some (done_meal ''B'' 2)"
    by (simp_all add: aliased_world_def find_meal_def)
  have b: "\<not> needs_image (done_meal ''B'' 2)"
    by (simp add: needs_image_def done_meal_def)
  have "photo (image_patch \<lparr>photoUrl = ''u'', blurhash_of = ''b''\<rparr> 5000000 (done_meal ''B'' 2))
      \<noteq> photo (done_meal ''B'' 2)"
    by (simp add: image_patch_def done_meal_def enriched_meal_def plain_meal_def)
  then have c: "image_patch \<lparr>photoUrl = ''u'', blurhash_of = ''b''\<rparr> 5000000 (done_meal ''B'' 2)
      \<noteq> done_meal ''B'' 2"
    by metis
  show ?thesis
    using a b c by (simp add: aliased_run find_meal_def)
qed

text \<open>
  Claim C9, amended. Let the ids of the collection be distinct and let \<open>d\<close> be the
  document stored under \<open>k\<close>. If \<open>d\<close> fails the filter of the image job and no
  selected candidate stores \<open>k\<close> as the id in its data, an invocation of
  \<^verbatim>\<open>generateImagesBatch\<close> leaves \<open>d\<close> stored under \<open>k\<close> and issues no write
  against \<open>k\<close>. If \<open>d\<close> already has the new description fields, an invocation of
  \<^verbatim>\<open>updateSingleBatchOnly\<close>, which writes by document id, does the same. Both hold
  whatever the outside calls answer.
\<close>

theorem ineligible_records_untouched:
  assumes "distinct (map fst (meals w))" and "find_meal k (meals w) = Some d"
  shows "(\<not> needs_image d \<and> (\<forall>(i, d') \<in> set (selected w). id_field d' \<noteq> Some k) \<longrightarrow>
            find_meal k (meals (snd (generateImagesBatch e w))) = Some d
            \<and> (\<exists>evs. trace (snd (generateImagesBatch e w)) = trace w @ evs
                  \<and> MealWrite k \<notin> set evs))
         \<and> (already_updated d \<longrightarrow>
              find_meal k (meals (snd (updateSingleBatchOnly e w))) = Some d
              \<and> (\<exists>evs. trace (snd (updateSingleBatchOnly e w)) = trace w @ evs
                    \<and> MealWrite k \<notin> set evs))"
proof -
  have stored: "d' = d" if "(k, d') \<in> set (meals w)" for d'
    using that assms by (simp add: find_meal_def)
  have image: "k \<notin> written_ids (selected w)"
    if ne: "\<not> needs_image d" and free: "\<forall>(i, d') \<in> set (selected w). id_field d' \<noteq> Some k"
  proof
    assume "k \<in> written_ids (selected w)"
    then obtain i d' where sel: "(i, d') \<in> set (selected w)" and k: "k = meal_id_of i d'"
      by (auto simp: written_ids_def)
    from free sel have "id_field d' \<noteq> Some k" by auto
    with k have "i = k"
      by (cases "id_field d'") (simp_all add: meal_id_of_def)
    with sel have sel: "(k, d') \<in> set (selected w)" by simp
    then have "needs_image d'"
      by (auto simp: selected_def dest!: in_set_takeD)
    moreover from sel have "(k, d') \<in> set (page_of w)"
      by (auto simp: selected_def dest!: in_set_takeD)
    then have "(k, d') \<in> set (meals w)"
      unfolding page_of_def by (rule subsetD [OF set_query_by_id])
    ultimately show False
      using stored ne by auto
  qed
  have descr: "k \<notin> {i. \<exists>d. (i, d) \<in> set (meals w) \<and> \<not> already_updated d}"
    if "already_updated d"
    using stored that by auto
  have half1: "find_meal k (meals (snd (generateImagesBatch e w))) = Some d
      \<and> (\<exists>evs. trace (snd (generateImagesBatch e w)) = trace w @ evs \<and> MealWrite k \<notin> set evs)"
    if "\<not> needs_image d" and "\<forall>(i, d') \<in> set (selected w). id_field d' \<noteq> Some k"
    using untouched_outside [OF only_touches_generateImagesBatch image [OF that]] assms(2)
    by simp
  have half2: "find_meal k (meals (snd (updateSingleBatchOnly e w))) = Some d
      \<and> (\<exists>evs. trace (snd (updateSingleBatchOnly e w)) = trace w @ evs \<and> MealWrite k \<notin> set evs)"
    if "already_updated d"
    using untouched_outside [OF only_touches_updateSingleBatchOnly descr [OF that]] assms(2)
    by simp
  from half1 half2 show ?thesis by blast
qed

lemma mixed_selected: "selected mixed_world = [(''b'', plain_meal ''Soup'' 2)]"
  by (simp add: selected_def page_of_def query_by_id_def by_id_def cursor_of_def
      empty_scan_state_def mixed_world_def SCAN_PAGE_SIZE_def IMAGE_BATCH_SIZE_def
      needs_image_def english_title_def plain_meal_def done_meal_def enriched_meal_def)

theorem ineligible_records_untouched_witness:
  "distinct (map fst (meals mixed_world))
   \<and> find_meal ''a'' (meals mixed_world) = Some (done_meal ''Tea'' 1)
   \<and> \<not> needs_image (done_meal ''Tea'' 1) \<and> already_updated (done_meal ''Tea'' 1)
   \<and> list_all (\<lambda>(i, d'). id_field d' \<noteq> Some ''a'') (selected mixed_world)
   \<and> find_meal ''a'' (meals (snd (generateImagesBatch steady_env mixed_world)))
       = Some (done_meal ''Tea'' 1)
   \<and> find_meal ''a'' (meals (snd (updateSingleBatchOnly steady_env mixed_world)))
       = Some (done_meal ''Tea'' 1)"
proof -
  have a: "distinct (map fst (meals mixed_world))"
    by (simp add: mixed_world_def)
  have b: "find_meal ''a'' (meals mixed_world) = Some (done_meal ''Tea'' 1)"
    by (simp add: mixed_world_def find_meal_def)
  have c: "\<not> needs_image (done_meal ''Tea'' 1)"
    by (simp add: needs_image_def done_meal_def)
  have d: "already_updated (done_meal ''Tea'' 1)"
    by (simp add: already_updated_def done_meal_def enriched_meal_def)
  have f: "\<forall>(i, d') \<in> set (selected mixed_world). id_field d' \<noteq> Some ''a''"
    by (simp add: mixed_selected plain_meal_def)
  show ?thesis
    using ineligible_records_untouched [OF a b, of steady_env] a b c d f
    by (simp add: list_all_iff)
qed

section \<open>A failing item does not stop the image batch\<close>

lemma ids_of_meals: "i \<in> fst ` set ms \<longleftrightarrow> find_meal i ms \<noteq> None"
  by (simp add: find_meal_def map_of_eq_None_iff)

lemma item_fails_same_ids:
  assumes "map fst ms' = map fst ms"
  shows "item_fails gen ms' = item_fails gen ms"
proof -
  have "fst ` set ms' = fst ` set ms"
    using assms by (metis set_map)
  then have "find_meal t ms' = None \<longleftrightarrow> find_meal t ms = None" for t
    using ids_of_meals [of t ms'] ids_of_meals [of t ms] by auto
  then show ?thesis
    by (auto simp: item_fails_def fun_eq_iff)
qed

lemma regenerate_one_steady:
  assumes nf: "\<forall>n. io_fault e n = None" and det: "\<forall>n. recraft e n = gen"
  shows "fst (regenerate_one e t d w) \<noteq> None
           \<longleftrightarrow> isl (gen (recraft_options_of d)) \<or> find_meal t (meals w) = None"
    and "\<exists>evs. trace (snd (regenerate_one e t d w)) = trace w @ evs
           \<and> filter is_recraft_call evs = [RecraftCall (english_title d)]"
    and "map fst (meals (snd (regenerate_one e t d w))) = map fst (meals w)"
  using nf det
  by (auto simp: regenerate_one_def generateRecraftFoodImage_def recraft_options_of_def
      update_meal_def store_call_def sleep_def map_fst_patch_meal Let_def
      split: sum.splits option.splits)

lemma markMealImageFailed_effect:
  "trace (markMealImageFailed e i msg w) = trace w @ [MealWrite i]"
  "map fst (meals (markMealImageFailed e i msg w)) = map fst (meals w)"
  by (auto simp: markMealImageFailed_def update_meal_def store_call_def map_fst_patch_meal
      split: option.splits)

lemma regenerate_docs_steady:
  assumes nf: "\<forall>n. io_fault e n = None" and det: "\<forall>n. recraft e n = gen"
  shows "\<exists>w' evs.
           regenerate_docs e ds (p, g, f) w =
             ((p + length ds,
               g + length (filter (\<lambda>x. \<not> item_fails gen (meals w) x) (attempted ds)),
               f + length (filter (item_fails gen (meals w)) (attempted ds))), w')
           \<and> trace w' = trace w @ evs
           \<and> filter is_recraft_call evs
               = map (\<lambda>(i, d). RecraftCall (english_title d)) (attempted ds)"
proof (induction ds arbitrary: p g f w)
  case Nil
  then show ?case by (simp add: attempted_def)
next
  case (Cons x ds)
  obtain i d where x: "x = (i, d)" by (cases x)
  let ?t = "meal_id_of i d"
  show ?case
  proof (cases "?t = [] \<or> english_title d = []")
    case True
    then have att: "attempted (x # ds) = attempted ds"
      by (auto simp: attempted_def x)
    from Cons.IH [of "p + 1" g f w] obtain w' evs where rest:
      "regenerate_docs e ds (p + 1, g, f) w =
         ((p + 1 + length ds,
           g + length (filter (\<lambda>x. \<not> item_fails gen (meals w) x) (attempted ds)),
           f + length (filter (item_fails gen (meals w)) (attempted ds))), w')"
      "trace w' = trace w @ evs"
      "filter is_recraft_call evs = map (\<lambda>(i, d). RecraftCall (english_title d)) (attempted ds)"
      by blast
    have "regenerate_docs e (x # ds) (p, g, f) w =
        ((p + length (x # ds),
          g + length (filter (\<lambda>x. \<not> item_fails gen (meals w) x) (attempted (x # ds))),
          f + length (filter (item_fails gen (meals w)) (attempted (x # ds)))), w')"
      using True x rest(1) att by auto
    with rest(2,3) att show ?thesis by auto
  next
    case False
    then have att: "attempted (x # ds) = x # attempted ds"
      by (simp add: attempted_def x)
    obtain r w1 where one: "regenerate_one e ?t d w = (r, w1)"
      by (cases "regenerate_one e ?t d w")
    from regenerate_one_steady [OF nf det, of ?t d w] one obtain evs1 where w1:
      "r \<noteq> None \<longleftrightarrow> item_fails gen (meals w) x"
      "trace w1 = trace w @ evs1"
      "filter is_recraft_call evs1 = [RecraftCall (english_title d)]"
      "map fst (meals w1) = map fst (meals w)"
      by (auto simp: item_fails_def x)
    show ?thesis
    proof (cases r)
      case None
      with w1(1) have ok: "\<not> item_fails gen (meals w) x" by simp
      have same: "item_fails gen (meals w1) = item_fails gen (meals w)"
        by (rule item_fails_same_ids [OF w1(4)])
      from Cons.IH [of "p + 1" "g + 1" f w1] obtain w' evs where rest:
        "regenerate_docs e ds (p + 1, g + 1, f) w1 =
           ((p + 1 + length ds,
             g + 1 + length (filter (\<lambda>x. \<not> item_fails gen (meals w) x) (attempted ds)),
             f + length (filter (item_fails gen (meals w)) (attempted ds))), w')"
        "trace w' = trace w1 @ evs"
        "filter is_recraft_call evs
           = map (\<lambda>(i, d). RecraftCall (english_title d)) (attempted ds)"
        unfolding same by blast
      have "trace w' = trace w @ (evs1 @ evs)"
        using w1(2) rest(2) by simp
      moreover have "filter is_recraft_call (evs1 @ evs)
          = map (\<lambda>(i, d). RecraftCall (english_title d)) (attempted (x # ds))"
        using w1(3) rest(3) x att by simp
      moreover have "regenerate_docs e (x # ds) (p, g, f) w =
          ((p + length (x # ds),
            g + length (filter (\<lambda>x. \<not> item_fails gen (meals w) x) (attempted (x # ds))),
            f + length (filter (item_fails gen (meals w)) (attempted (x # ds)))), w')"
        using x False one None rest(1) att ok by simp
      ultimately show ?thesis by blast
    next
      case (Some err)
      obtain msg where err: "err = Error msg" by (cases err)
      from Some w1(1) have bad: "item_fails gen (meals w) x" by simp
      let ?w2 = "markMealImageFailed e ?t msg w1"
      have "map fst (meals ?w2) = map fst (meals w)"
        using w1(4) markMealImageFailed_effect(2) [of e ?t msg w1] by simp
      then have same: "item_fails gen (meals ?w2) = item_fails gen (meals w)"
        by (rule item_fails_same_ids)
      from Cons.IH [of "p + 1" g "f + 1" ?w2] obtain w' evs where rest:
        "regenerate_docs e ds (p + 1, g, f + 1) ?w2 =
           ((p + 1 + length ds,
             g + length (filter (\<lambda>x. \<not> item_fails gen (meals w) x) (attempted ds)),
             f + 1 + length (filter (item_fails gen (meals w)) (attempted ds))), w')"
        "trace w' = trace ?w2 @ evs"
        "filter is_recraft_call evs
           = map (\<lambda>(i, d). RecraftCall (english_title d)) (attempted ds)"
        unfolding same by blast
      have "trace w' = trace w @ (evs1 @ MealWrite ?t # evs)"
        using w1(2) rest(2) markMealImageFailed_effect(1) [of e ?t msg w1] by simp
      moreover have "filter is_recraft_call (evs1 @ MealWrite ?t # evs)
          = map (\<lambda>(i, d). RecraftCall (english_title d)) (attempted (x # ds))"
        using w1(3) rest(3) x att by simp
      moreover have "regenerate_docs e (x # ds) (p, g, f) w =
          ((p + length (x # ds),
            g + length (filter (\<lambda>x. \<not> item_fails gen (meals w) x) (attempted (x # ds))),
            f + length (filter (item_fails gen (meals w)) (attempted (x # ds)))), w')"
        using x False one Some err rest(1) att bad by simp
      ultimately show ?thesis by blast
    qed
  qed
qed

lemma scan_page_steady:
  assumes "\<forall>n. io_fault e n = None"
  shows "scan_page e w = (Inr (page_of w), w\<lparr>tick := Suc (Suc (tick w))\<rparr>)"
  using assms by (simp add: scan_page_def getScanState_def store_call_def page_of_def)

lemma advance_and_return_steady:
  assumes "\<forall>n. io_fault e n = None"
  shows "\<exists>w'. advance_and_return e l f s w = (Inr s, w') \<and> trace w' = trace w"
  using assms by (simp add: advance_and_return_def setScanState_def store_call_def)

lemma attempted_selected:
  "attempted (selected w) = filter (\<lambda>(i, d). meal_id_of i d \<noteq> []) (selected w)"
proof -
  have "english_title d \<noteq> []" if "(i, d) \<in> set (selected w)" for i d
    using that by (auto simp: selected_def needs_image_def dest!: in_set_takeD)
  then show ?thesis
    unfolding attempted_def by (intro filter_cong) auto
qed

text \<open>
  The summary of an invocation of the image job when no store call throws and the image
  service answers each request the same way every time.
\<close>

lemma generateImagesBatch_steady:
  assumes "\<forall>n. io_fault e n = None" and "\<forall>n. recraft e n = gen"
  shows "\<exists>w' evs.
           generateImagesBatch e w =
             (Inr \<lparr>b_processed = length (selected w),
                   b_generated =
                     length (filter (\<lambda>x. \<not> item_fails gen (meals w) x)
                               (attempted (selected w))),
                   b_failed =
                     length (filter (item_fails gen (meals w)) (attempted (selected w))),
                   b_hasMore = (length (page_of w) = SCAN_PAGE_SIZE)\<rparr>, w')
           \<and> trace w' = trace w @ evs
           \<and> filter is_recraft_call evs
               = map (\<lambda>(i, d). RecraftCall (english_title d)) (attempted (selected w))"
proof -
  let ?docs = "page_of w"
  let ?cands = "filter (\<lambda>(i, d). needs_image d) ?docs"
  let ?w1 = "w\<lparr>tick := Suc (Suc (tick w))\<rparr>"
  note scan = scan_page_steady [OF assms(1), of w]
  show ?thesis
  proof (cases "?docs = []")
    case True
    then have sel: "selected w = []"
      by (simp add: selected_def)
    from advance_and_return_steady [OF assms(1)] obtain w' where
      "advance_and_return e None True
         \<lparr>b_processed = 0, b_generated = 0, b_failed = 0, b_hasMore = False\<rparr> ?w1
       = (Inr \<lparr>b_processed = 0, b_generated = 0, b_failed = 0, b_hasMore = False\<rparr>, w')"
      "trace w' = trace ?w1"
      by blast
    with True sel scan show ?thesis
      by (simp add: generateImagesBatch_def SCAN_PAGE_SIZE_def attempted_def)
  next
    case False
    show ?thesis
    proof (cases "?cands = []")
      case True
      then have sel: "selected w = []"
        by (simp add: selected_def)
      let ?s = "\<lparr>b_processed = 0, b_generated = 0, b_failed = 0,
                 b_hasMore = (length ?docs = SCAN_PAGE_SIZE)\<rparr>"
      from advance_and_return_steady [OF assms(1)] obtain w' where
        "advance_and_return e (Some (fst (last ?docs))) (length ?docs \<noteq> SCAN_PAGE_SIZE) ?s ?w1
         = (Inr ?s, w')"
        "trace w' = trace ?w1"
        by blast
      with True \<open>?docs \<noteq> []\<close> sel scan show ?thesis
        by (simp add: generateImagesBatch_def Let_def attempted_def)
    next
      case cands: False
      have sel: "selected w = take IMAGE_BATCH_SIZE ?cands"
        by (simp add: selected_def)
      have m1: "meals ?w1 = meals w" by simp
      from regenerate_docs_steady [OF assms(1,2), of "selected w" 0 0 0 ?w1]
      obtain w2 evs where run:
        "regenerate_docs e (selected w) (0, 0, 0) ?w1 =
           ((length (selected w),
             length (filter (\<lambda>x. \<not> item_fails gen (meals w) x) (attempted (selected w))),
             length (filter (item_fails gen (meals w)) (attempted (selected w)))), w2)"
        "trace w2 = trace ?w1 @ evs"
        "filter is_recraft_call evs
           = map (\<lambda>(i, d). RecraftCall (english_title d)) (attempted (selected w))"
        unfolding m1 by auto
      let ?s = "\<lparr>b_processed = length (selected w),
          b_generated =
            length (filter (\<lambda>x. \<not> item_fails gen (meals w) x) (attempted (selected w))),
          b_failed = length (filter (item_fails gen (meals w)) (attempted (selected w))),
          b_hasMore = (length ?docs = SCAN_PAGE_SIZE)\<rparr>"
      from advance_and_return_steady [OF assms(1)] obtain w' where adv:
        "advance_and_return e (Some (fst (last ?docs))) (length ?docs \<noteq> SCAN_PAGE_SIZE) ?s w2
         = (Inr ?s, w')"
        "trace w' = trace w2"
        by blast
      have "generateImagesBatch e w = (Inr ?s, w')"
        using scan \<open>?docs \<noteq> []\<close> cands run(1) adv(1) sel
        by (simp add: generateImagesBatch_def Let_def)
      moreover have "trace w' = trace w @ evs"
        using adv(2) run(2) by simp
      ultimately show ?thesis
        using run(3) by blast
    qed
  qed
qed

lemma five_meals_selected:
  "selected five_meals_world = meals five_meals_world"
  by (simp add: selected_def page_of_def query_by_id_def by_id_def cursor_of_def
      empty_scan_state_def five_meals_world_def SCAN_PAGE_SIZE_def IMAGE_BATCH_SIZE_def
      needs_image_def english_title_def plain_meal_def)

lemma unnamed_item_selected:
  "selected unnamed_item_world = meals unnamed_item_world"
  by (simp add: selected_def page_of_def query_by_id_def by_id_def cursor_of_def
      empty_scan_state_def unnamed_item_world_def SCAN_PAGE_SIZE_def IMAGE_BATCH_SIZE_def
      needs_image_def english_title_def plain_meal_def)

lemma plain_titles:
  "english_title (plain_meal s n) = s"
  "english_title ((plain_meal s n)\<lparr>id_field := v\<rparr>) = s"
  "englishTitle (recraft_options_of d) = english_title d"
  by (simp_all add: english_title_def plain_meal_def recraft_options_of_def)

text \<open>
  Claim C7, as the specification words it, has every item of the selected batch other
  than the failing one attempted. An item whose \<^verbatim>\<open>meal.id\<close> is empty is counted as
  processed and passed over without a call to the image service. Here five candidates
  are selected and the service refuses the third only; the first stores an empty id in
  its data, which the service would have served: the summary reports five processed,
  three generated and one failed, and the service was called for the last four items
  only.
\<close>

theorem skipped_item_counterexample:
  "selected unnamed_item_world = meals unnamed_item_world
   \<and> length (meals unnamed_item_world) = 5
   \<and> \<not> isl (picky_service (recraft_options_of (snd (meals unnamed_item_world ! 0))))
   \<and> fst (generateImagesBatch picky_env unnamed_item_world)
       = Inr \<lparr>b_processed = 5, b_generated = 3, b_failed = 1, b_hasMore = False\<rparr>
   \<and> filter is_recraft_call (trace (snd (generateImagesBatch picky_env unnamed_item_world)))
       = [RecraftCall ''B'', RecraftCall ''C'', RecraftCall ''D'', RecraftCall ''E'']"
proof -
  have a: "\<forall>n. io_fault picky_env n = None"
    by (simp add: picky_env_def)
  have b: "\<forall>n. recraft picky_env n = picky_service"
    by (simp add: picky_env_def)
  have p: "length (page_of unnamed_item_world) \<noteq> SCAN_PAGE_SIZE"
    by (simp add: page_of_def query_by_id_def by_id_def cursor_of_def empty_scan_state_def
        unnamed_item_world_def SCAN_PAGE_SIZE_def)
  have m: "meals unnamed_item_world =
      [(''m1'', (plain_meal ''A'' 1)\<lparr>id_field := Some []\<rparr>), (''m2'', plain_meal ''B'' 2),
       (''m3'', plain_meal ''C'' 3), (''m4'', plain_meal ''D'' 4), (''m5'', plain_meal ''E'' 5)]"
    "trace unnamed_item_world = []"
    by (simp_all add: unnamed_item_world_def)
  have i: "meal_id_of k (plain_meal s n) = k"
    "meal_id_of k ((plain_meal s n)\<lparr>id_field := Some []\<rparr>) = []" for k s n
    by (simp_all add: meal_id_of_def plain_meal_def)
  have served: "\<not> isl (picky_service (recraft_options_of (snd (meals unnamed_item_world ! 0))))"
    by (simp add: m picky_service_def plain_titles)
  from generateImagesBatch_steady [OF a b, of unnamed_item_world] p
  have "fst (generateImagesBatch picky_env unnamed_item_world)
       = Inr \<lparr>b_processed = 5, b_generated = 3, b_failed = 1, b_hasMore = False\<rparr>
     \<and> filter is_recraft_call (trace (snd (generateImagesBatch picky_env unnamed_item_world)))
       = [RecraftCall ''B'', RecraftCall ''C'', RecraftCall ''D'', RecraftCall ''E'']"
    by (auto simp: unnamed_item_selected m i attempted_def item_fails_def picky_service_def
        plain_titles find_meal_def)
  with served show ?thesis
    by (simp add: unnamed_item_selected m(1))
qed

text \<open>
  Claim C7, amended. Let no store call throw and let the image service answer each
  request the same way every time. Then an invocation of \<^verbatim>\<open>generateImagesBatch\<close>
  returns a summary, not an error, and \<open>processed\<close> is the number of selected
  candidates. The candidates attempted are those whose \<^verbatim>\<open>meal.id\<close> is not empty:
  the image service is called once for each of them, in page order, whatever happened
  to the items before. \<open>failed\<close> is the number of attempted candidates the service
  refuses or whose \<^verbatim>\<open>meal.id\<close> names no document, \<open>generated\<close> the number of the
  other attempted candidates.
\<close>

theorem partial_failure_containment:
  assumes "\<forall>n. io_fault e n = None" and "\<forall>n. recraft e n = gen"
  shows "attempted (selected w) = filter (\<lambda>(i, d). meal_id_of i d \<noteq> []) (selected w)
         \<and> (\<exists>w' evs.
              generateImagesBatch e w =
                (Inr \<lparr>b_processed = length (selected w),
                      b_generated =
                        length (filter (\<lambda>x. \<not> item_fails gen (meals w) x)
                                  (attempted (selected w))),
                      b_failed =
                        length (filter (item_fails gen (meals w)) (attempted (selected w))),
                      b_hasMore = (length (page_of w) = SCAN_PAGE_SIZE)\<rparr>, w')
              \<and> trace w' = trace w @ evs
              \<and> filter is_recraft_call evs
                  = map (\<lambda>(i, d). RecraftCall (english_title d)) (attempted (selected w)))"
  using generateImagesBatch_steady [OF assms, of w] attempted_selected [of w]
  by blast

theorem partial_failure_containment_witness:
  "(\<forall>n. io_fault picky_env n = None) \<and> (\<forall>n. recraft picky_env n = picky_service)
   \<and> attempted (selected five_meals_world) = meals five_meals_world
   \<and> (\<exists>w' evs.
        generateImagesBatch picky_env five_meals_world =
          (Inr \<lparr>b_processed = 5, b_generated = 4, b_failed = 1, b_hasMore = False\<rparr>, w')
        \<and> trace w' = trace five_meals_world @ evs
        \<and> filter is_recraft_call evs =
            [RecraftCall ''A'', RecraftCall ''B'', RecraftCall ''C'', RecraftCall ''D'',
             RecraftCall ''E''])"
proof -
  have a: "\<forall>n. io_fault picky_env n = None"
    by (simp add: picky_env_def)
  have b: "\<forall>n. recraft picky_env n = picky_service"
    by (simp add: picky_env_def)
  have p: "length (page_of five_meals_world) \<noteq> SCAN_PAGE_SIZE"
    by (simp add: page_of_def query_by_id_def by_id_def cursor_of_def empty_scan_state_def
        five_meals_world_def SCAN_PAGE_SIZE_def)
  have m: "meals five_meals_world =
      [(''m1'', plain_meal ''A'' 1), (''m2'', plain_meal ''B'' 2), (''m3'', plain_meal ''C'' 3),
       (''m4'', plain_meal ''D'' 4), (''m5'', plain_meal ''E'' 5)]"
    by (simp add: five_meals_world_def)
  have i: "meal_id_of k (plain_meal s n) = k" for k s n
    by (simp add: meal_id_of_def plain_meal_def)
  have att: "attempted (meals five_meals_world) = meals five_meals_world"
    by (simp add: m attempted_def i plain_titles)
  show ?thesis
    using partial_failure_containment [OF a b, of five_meals_world] a b p
    by (simp add: five_meals_selected att)
      (simp add: m item_fails_def i picky_service_def plain_titles find_meal_def
        eval_nat_numeral)
qed

section \<open>What a terminal failure leaves on the record\<close>

lemma picky_refusal:
  "regenerate_one picky_env ''m3'' (plain_meal ''C'' 3) five_meals_world =
     (Some (Error ''rejected''), five_meals_world\<lparr>tick := 1, trace := [RecraftCall ''C'']\<rparr>)"
  by (simp add: regenerate_one_def generateRecraftFoodImage_def recraft_options_of_def
      picky_env_def picky_service_def english_title_def plain_meal_def five_meals_world_def)

text \<open>
  Claim C5, as the specification words it, has every record whose transformation fails
  after the attempt budget marked with failure fields. In the description job a meal
  whose three attempts all fail is stored afterwards exactly as before: it carries no
  failure flag, no error message and no failure time.
\<close>

theorem unmarked_failure_counterexample:
  "fst (updateSingleMeal failing_model_env ''a'' (plain_meal ''Tea'' 1) two_meals_world) = False
   \<and> find_meal ''a''
        (meals (snd (updateSingleMeal failing_model_env ''a'' (plain_meal ''Tea'' 1)
                       two_meals_world)))
       = Some (plain_meal ''Tea'' 1)
   \<and> image_generation_failed (plain_meal ''Tea'' 1) = None
   \<and> image_generation_error (plain_meal ''Tea'' 1) = None
   \<and> image_generation_failed_at (plain_meal ''Tea'' 1) = None"
proof -
  have stored: "find_meal ''a'' (meals two_meals_world) = Some (plain_meal ''Tea'' 1)"
    by (simp add: find_meal_def two_meals_world_def)
  have fields: "image_generation_failed (plain_meal ''Tea'' 1) = None"
    "image_generation_error (plain_meal ''Tea'' 1) = None"
    "image_generation_failed_at (plain_meal ''Tea'' 1) = None"
    by (simp_all add: plain_meal_def)
  show ?thesis
    by (simp add: failing_model_run stored fields)
qed

text \<open>
  Claim C5, amended. In the image job an attempted item whose generation fails with
  message \<open>msg\<close> is counted as failed and the loop goes on with the next candidate;
  the mark is written to the document named by \<^verbatim>\<open>meal.id\<close>, which is the record
  itself unless its data stores an id, and when the marking write does not throw and
  that document exists, it then carries the failed flag, the message and the failure
  time. In the description job a meal whose three attempts all fail is not marked:
  \<^verbatim>\<open>updateSingleMeal\<close> answers false, the collection is what it was, and the loop
  goes on with the next document without counting an update.
\<close>

theorem terminal_failure_recording:
  "(meal_id_of i d \<noteq> [] \<and> english_title d \<noteq> []
      \<and> regenerate_one e (meal_id_of i d) d w = (Some (Error msg), w1) \<longrightarrow>
      regenerate_docs e ((i, d) # ds) (p, g, f) w
        = regenerate_docs e ds (p + 1, g, f + 1) (markMealImageFailed e (meal_id_of i d) msg w1)
      \<and> (id_field d = None \<longrightarrow> meal_id_of i d = i)
      \<and> (io_fault e (tick w1) = None \<and> find_meal (meal_id_of i d) (meals w1) = Some m \<longrightarrow>
           find_meal (meal_id_of i d) (meals (markMealImageFailed e (meal_id_of i d) msg w1))
             = Some (m\<lparr>image_generation_failed := Some True,
                       image_generation_error := Some msg,
                       image_generation_failed_at := Some (clock w1),
                       updated_time := Some (clock w1)\<rparr>)))
   \<and> (\<not> already_updated meal
        \<and> generate_and_write e i meal w = (Some err1, v1)
        \<and> generate_and_write e i meal (sleep 2000 v1) = (Some err2, v2)
        \<and> generate_and_write e i meal (sleep 4000 v2) = (Some err3, v3) \<longrightarrow>
        updateSingleMeal e i meal w = (False, v3)
        \<and> meals v3 = meals w
        \<and> update_docs e ((i, meal) # ds') (p', u, l) w = update_docs e ds' (p' + 1, u, i) v3)"
proof -
  let ?t = "meal_id_of i d"
  have mark: "find_meal ?t (meals (markMealImageFailed e ?t msg w1))
      = Some (m\<lparr>image_generation_failed := Some True, image_generation_error := Some msg,
                image_generation_failed_at := Some (clock w1),
                updated_time := Some (clock w1)\<rparr>)"
    if "io_fault e (tick w1) = None" and "find_meal ?t (meals w1) = Some m"
    using that
    by (simp add: markMealImageFailed_def update_meal_def store_call_def find_meal_patch_same
        failure_patch_def)
  have own: "id_field d = None \<longrightarrow> ?t = i"
    by (simp add: meal_id_of_def)
  have image: "regenerate_docs e ((i, d) # ds) (p, g, f) w
      = regenerate_docs e ds (p + 1, g, f + 1) (markMealImageFailed e ?t msg w1)"
    if "?t \<noteq> []" and "english_title d \<noteq> []"
      and "regenerate_one e ?t d w = (Some (Error msg), w1)"
    using that by simp
  have descr: "updateSingleMeal e i meal w = (False, v3) \<and> meals v3 = meals w
      \<and> update_docs e ((i, meal) # ds') (p', u, l) w = update_docs e ds' (p' + 1, u, i) v3"
    if nu: "\<not> already_updated meal"
      and a1: "generate_and_write e i meal w = (Some err1, v1)"
      and a2: "generate_and_write e i meal (sleep 2000 v1) = (Some err2, v2)"
      and a3: "generate_and_write e i meal (sleep 4000 v2) = (Some err3, v3)"
  proof -
    have run: "updateSingleMeal e i meal w = (False, v3)"
      using updateSingleMeal_unrolled [OF nu, of e i w] a1 a2 a3 by simp
    have "meals v1 = meals w" "meals v2 = meals (sleep 2000 v1)"
      "meals v3 = meals (sleep 4000 v2)"
      using generate_and_write_effect(3) [OF a1] generate_and_write_effect(3) [OF a2]
        generate_and_write_effect(3) [OF a3]
      by simp_all
    then have "meals v3 = meals w"
      by (simp add: sleep_def)
    with run show ?thesis by simp
  qed
  from mark own image descr show ?thesis by blast
qed

lemma failing_attempts:
  "generate_and_write failing_model_env ''a'' (plain_meal ''Tea'' 1) two_meals_world
     = (Some (Error ''timeout''), two_meals_world\<lparr>tick := 1, trace := [OpenAICall]\<rparr>)"
  "generate_and_write failing_model_env ''a'' (plain_meal ''Tea'' 1)
       (sleep 2000 (two_meals_world\<lparr>tick := 1, trace := [OpenAICall]\<rparr>))
     = (Some (Error ''timeout''),
        two_meals_world\<lparr>tick := 2, clock := 5002000,
          trace := [OpenAICall, Sleep 2000, OpenAICall]\<rparr>)"
  "generate_and_write failing_model_env ''a'' (plain_meal ''Tea'' 1)
       (sleep 4000 (two_meals_world\<lparr>tick := 2, clock := 5002000,
          trace := [OpenAICall, Sleep 2000, OpenAICall]\<rparr>))
     = (Some (Error ''timeout''),
        two_meals_world\<lparr>tick := 3, clock := 5006000,
          trace := [OpenAICall, Sleep 2000, OpenAICall, Sleep 4000, OpenAICall]\<rparr>)"
  by (simp_all add: generate_and_write_def generateEnhancedMealDescription_def
      failing_model_env_def sleep_def two_meals_world_def)

theorem terminal_failure_recording_witness:
  "regenerate_docs picky_env [(''m3'', plain_meal ''C'' 3)] (0, 0, 0) five_meals_world
     = ((1, 0, 1),
        markMealImageFailed picky_env ''m3'' ''rejected''
          (five_meals_world\<lparr>tick := 1, trace := [RecraftCall ''C'']\<rparr>))
   \<and> find_meal ''m3''
        (meals (markMealImageFailed picky_env ''m3'' ''rejected''
                  (five_meals_world\<lparr>tick := 1, trace := [RecraftCall ''C'']\<rparr>)))
       = Some ((plain_meal ''C'' 3)
                 \<lparr>image_generation_failed := Some True,
                  image_generation_error := Some ''rejected'',
                  image_generation_failed_at := Some 5000000,
                  updated_time := Some 5000000\<rparr>)
   \<and> updateSingleMeal failing_model_env ''a'' (plain_meal ''Tea'' 1) two_meals_world
       = (False, two_meals_world\<lparr>tick := 3, clock := 5006000,
            trace := [OpenAICall, Sleep 2000, OpenAICall, Sleep 4000, OpenAICall]\<rparr>)
   \<and> meals (two_meals_world\<lparr>tick := 3, clock := 5006000,
          trace := [OpenAICall, Sleep 2000, OpenAICall, Sleep 4000, OpenAICall]\<rparr>)
       = meals two_meals_world"
proof -
  let ?w1 = "five_meals_world\<lparr>tick := 1, trace := [RecraftCall ''C'']\<rparr>"
  have t: "meal_id_of ''m3'' (plain_meal ''C'' 3) = ''m3''"
    by (simp add: meal_id_of_def plain_meal_def)
  have a: "english_title (plain_meal ''C'' 3) \<noteq> []"
    by (simp add: english_title_def plain_meal_def)
  have b: "io_fault picky_env (tick ?w1) = None"
    by (simp add: picky_env_def)
  have c: "find_meal ''m3'' (meals ?w1) = Some (plain_meal ''C'' 3)"
    by (simp add: find_meal_def five_meals_world_def)
  have k: "clock five_meals_world = 5000000"
    by (simp add: five_meals_world_def)
  have h: "\<not> already_updated (plain_meal ''Tea'' 1)"
    by (simp add: already_updated_def plain_meal_def)
  let ?v1 = "two_meals_world\<lparr>tick := 1, trace := [OpenAICall]\<rparr>"
  let ?v2 = "two_meals_world\<lparr>tick := 2, clock := 5002000,
      trace := [OpenAICall, Sleep 2000, OpenAICall]\<rparr>"
  let ?v3 = "two_meals_world\<lparr>tick := 3, clock := 5006000,
      trace := [OpenAICall, Sleep 2000, OpenAICall, Sleep 4000, OpenAICall]\<rparr>"
  have image:
    "regenerate_docs picky_env [(''m3'', plain_meal ''C'' 3)] (0, 0, 0) five_meals_world
       = ((1, 0, 1), markMealImageFailed picky_env ''m3'' ''rejected'' ?w1)
     \<and> find_meal ''m3'' (meals (markMealImageFailed picky_env ''m3'' ''rejected'' ?w1))
         = Some ((plain_meal ''C'' 3)
                   \<lparr>image_generation_failed := Some True,
                    image_generation_error := Some ''rejected'',
                    image_generation_failed_at := Some 5000000,
                    updated_time := Some 5000000\<rparr>)"
    using terminal_failure_recording
      [of "''m3''" "plain_meal ''C'' 3" picky_env five_meals_world "''rejected''" ?w1
        "[]" 0 0 0 "plain_meal ''C'' 3"]
      t a b c picky_refusal
    by (simp add: k)
  have descr:
    "updateSingleMeal failing_model_env ''a'' (plain_meal ''Tea'' 1) two_meals_world
       = (False, ?v3)
     \<and> meals ?v3 = meals two_meals_world"
    using terminal_failure_recording
      [of "''a''" _ failing_model_env two_meals_world _ _ _ _ _ _ _
        "plain_meal ''Tea'' 1" "Error ''timeout''" ?v1 "Error ''timeout''" ?v2
        "Error ''timeout''" ?v3]
      h failing_attempts
    by blast
  from image descr show ?thesis by simp
qed

section \<open>The cursor after the last page\<close>






section \<open>The drain and its lock\<close>

text \<open>
  Claim C3. Take a run of \<^verbatim>\<open>updateAllExistingMeals\<close> that passed the gate, acquired
  the lock and came to an end. Its last action is \<^verbatim>\<open>releaseLock\<close>, applied to the
  world the loop left behind, whether the loop finished or threw; in the second case the
  error of the loop is the result of the run. Unless the delete itself throws, no lock
  document is stored afterwards.
\<close>

theorem drain_releases_lock:
  assumes "isUpdateProcessRunning e w = (False, w1)" and "acquireLock e w1 = (True, w2)"
    and "updateAllExistingMeals e budget w = Some (r, w')"
  shows "\<exists>res w3. drain_loop e budget None (0, 0) w2 = Some (res, w3)
           \<and> w' = releaseLock e w3
           \<and> r = (case res of Inl err \<Rightarrow> Inl err | Inr totals \<Rightarrow> Inr ())
           \<and> (io_fault e (tick w3) = None \<longrightarrow> lock_doc w' = None)"
proof -
  from assms obtain res w3 where loop: "drain_loop e budget None (0, 0) w2 = Some (res, w3)"
    by (cases "drain_loop e budget None (0, 0) w2") (auto simp: updateAllExistingMeals_def)
  with assms have "w' = releaseLock e w3"
    and "r = (case res of Inl err \<Rightarrow> Inl err | Inr totals \<Rightarrow> Inr ())"
    by (auto simp: updateAllExistingMeals_def split: sum.splits)
  moreover have "io_fault e (tick w3) = None \<longrightarrow> lock_doc (releaseLock e w3) = None"
    by (simp add: releaseLock_def store_call_def)
  ultimately show ?thesis
    using loop by simp
qed

lemma drain_loop_last_round:
  assumes "updateMealsInBatches e startAfter w = (Inr result, w1)" and "\<not> r_hasMore result"
    and "0 < n"
  shows "drain_loop e n startAfter (tp, tu) w
           = Some (Inr (tp + r_processed result, tu + r_updated result), w1)"
  using assms by (cases n) (simp_all add: Let_def)

lemma drain_loop_error:
  assumes "updateMealsInBatches e startAfter w = (Inl err, w1)" and "0 < n"
  shows "drain_loop e n startAfter (tp, tu) w = Some (Inl err, w1)"
  using assms by (cases n) simp_all

lemma drain_completes:
  "isUpdateProcessRunning steady_env enriched_world = (False, enriched_world\<lparr>tick := 1\<rparr>)"
  "acquireLock steady_env (enriched_world\<lparr>tick := 1\<rparr>) =
     (True, enriched_world\<lparr>tick := 2, lock_doc := Some
        \<lparr>locked = True, timestamp = Some 5000000, process_id = ''update_5000000''\<rparr>\<rparr>)"
  "updateAllExistingMeals steady_env 3 enriched_world = Some (Inr (), enriched_world\<lparr>tick := 4\<rparr>)"
proof -
  have 0: "tick enriched_world = 0" "clock enriched_world = 5000000"
    "lock_doc enriched_world = None"
    by (simp_all add: enriched_world_def)
  have f: "io_fault steady_env n = None" for n
    by (simp add: steady_env_def)
  show 1: "isUpdateProcessRunning steady_env enriched_world
      = (False, enriched_world\<lparr>tick := 1\<rparr>)"
    by (simp add: isUpdateProcessRunning_def store_call_def 0 f)
  let ?w2 = "enriched_world\<lparr>tick := 2, lock_doc := Some
      \<lparr>locked = True, timestamp = Some 5000000, process_id = ''update_5000000''\<rparr>\<rparr>"
  show 2: "acquireLock steady_env (enriched_world\<lparr>tick := 1\<rparr>) = (True, ?w2)"
    by (simp add: acquireLock_def store_call_def 0 f show_int_def show_nat.simps
        digit_char_def)
  have page: "updateMealsInBatches steady_env None ?w2 =
      (Inr \<lparr>r_processed = 2, r_updated = 2, r_hasMore = False, r_lastProcessedId = Some ''b''\<rparr>,
       ?w2\<lparr>tick := 3\<rparr>)"
    by (simp add: updateMealsInBatches_def read_start_doc_def store_call_def steady_env_def
        enriched_world_def query_by_created_time_def by_created_time_def BATCH_SIZE_def
        enriched_meal_def plain_meal_def updateSingleMeal_def retry_from.simps maxRetries_def
        already_updated_def)
  have loop: "drain_loop steady_env 3 None (0, 0) ?w2 = Some (Inr (2, 2), ?w2\<lparr>tick := 3\<rparr>)"
    using drain_loop_last_round [OF page, of 3 0 0] by simp
  have rel: "releaseLock steady_env (?w2\<lparr>tick := 3\<rparr>) = enriched_world\<lparr>tick := 4\<rparr>"
    by (simp add: releaseLock_def store_call_def f enriched_world_def)
  show "updateAllExistingMeals steady_env 3 enriched_world
      = Some (Inr (), enriched_world\<lparr>tick := 4\<rparr>)"
    by (simp only: updateAllExistingMeals_def 1 2 loop rel prod.case sum.case option.case
        if_False if_True simp_thms)
qed

lemma drain_aborts:
  "isUpdateProcessRunning third_call_fails_env enriched_world
     = (False, enriched_world\<lparr>tick := 1\<rparr>)"
  "acquireLock third_call_fails_env (enriched_world\<lparr>tick := 1\<rparr>) =
     (True, enriched_world\<lparr>tick := 2, lock_doc := Some
        \<lparr>locked = True, timestamp = Some 5000000, process_id = ''update_5000000''\<rparr>\<rparr>)"
  "updateAllExistingMeals third_call_fails_env 3 enriched_world
     = Some (Inl (Error ''UNAVAILABLE''), enriched_world\<lparr>tick := 4\<rparr>)"
proof -
  have 0: "tick enriched_world = 0" "clock enriched_world = 5000000"
    "lock_doc enriched_world = None"
    by (simp_all add: enriched_world_def)
  have f: "io_fault third_call_fails_env n = (if n = 2 then Some ''UNAVAILABLE'' else None)" for n
    by (simp add: third_call_fails_env_def)
  show 1: "isUpdateProcessRunning third_call_fails_env enriched_world
      = (False, enriched_world\<lparr>tick := 1\<rparr>)"
    by (simp add: isUpdateProcessRunning_def store_call_def 0 f)
  let ?w2 = "enriched_world\<lparr>tick := 2, lock_doc := Some
      \<lparr>locked = True, timestamp = Some 5000000, process_id = ''update_5000000''\<rparr>\<rparr>"
  show 2: "acquireLock third_call_fails_env (enriched_world\<lparr>tick := 1\<rparr>) = (True, ?w2)"
    by (simp add: acquireLock_def store_call_def 0 f show_int_def show_nat.simps
        digit_char_def)
  have page: "updateMealsInBatches third_call_fails_env None ?w2 =
      (Inl (Error ''UNAVAILABLE''), ?w2\<lparr>tick := 3\<rparr>)"
    by (simp add: updateMealsInBatches_def read_start_doc_def store_call_def f)
  have loop: "drain_loop third_call_fails_env 3 None (0, 0) ?w2
      = Some (Inl (Error ''UNAVAILABLE''), ?w2\<lparr>tick := 3\<rparr>)"
    using drain_loop_error [OF page, of 3 0 0] by simp
  have rel: "releaseLock third_call_fails_env (?w2\<lparr>tick := 3\<rparr>) = enriched_world\<lparr>tick := 4\<rparr>"
    by (simp add: releaseLock_def store_call_def f enriched_world_def)
  show "updateAllExistingMeals third_call_fails_env 3 enriched_world
      = Some (Inl (Error ''UNAVAILABLE''), enriched_world\<lparr>tick := 4\<rparr>)"
    by (simp only: updateAllExistingMeals_def 1 2 loop rel prod.case sum.case option.case
        if_False if_True simp_thms)
qed

theorem drain_releases_lock_witness:
  "updateAllExistingMeals steady_env 3 enriched_world = Some (Inr (), enriched_world\<lparr>tick := 4\<rparr>)
   \<and> updateAllExistingMeals third_call_fails_env 3 enriched_world
       = Some (Inl (Error ''UNAVAILABLE''), enriched_world\<lparr>tick := 4\<rparr>)
   \<and> (\<exists>w3. enriched_world\<lparr>tick := 4\<rparr> = releaseLock third_call_fails_env w3)
   \<and> lock_doc (snd (acquireLock steady_env (enriched_world\<lparr>tick := 1\<rparr>))) \<noteq> None
   \<and> lock_doc (enriched_world\<lparr>tick := 4\<rparr>) = None"
proof -
  have f: "io_fault steady_env n = None" for n
    by (simp add: steady_env_def)
  from drain_releases_lock [OF drain_completes] f
  have a: "lock_doc (enriched_world\<lparr>tick := 4\<rparr>) = None"
    by auto
  from drain_releases_lock [OF drain_aborts]
  have b: "\<exists>w3. enriched_world\<lparr>tick := 4\<rparr> = releaseLock third_call_fails_env w3"
    by auto
  have c: "lock_doc (snd (acquireLock steady_env (enriched_world\<lparr>tick := 1\<rparr>))) \<noteq> None"
    by (simp only: drain_completes(2) snd_conv) simp
  from a b c drain_completes(3) drain_aborts(3) show ?thesis
    by (intro conjI)
qed

section \<open>The drain comes to an end\<close>

lemma length_filter_less:
  assumes "\<forall>x \<in> set xs. P x \<longrightarrow> Q x" and "\<exists>x \<in> set xs. Q x \<and> \<not> P x"
  shows "length (filter P xs) < length (filter Q xs)"
  using assms
proof (induction xs)
  case Nil
  then show ?case by simp
next
  case (Cons x xs)
  have le: "length (filter P xs) \<le> length (filter Q xs)"
    using Cons.prems(1)
    by (induction xs) (auto simp: le_Suc_eq)
  show ?case
  proof (cases "\<exists>y \<in> set xs. Q y \<and> \<not> P y")
    case True
    with Cons have "length (filter P xs) < length (filter Q xs)" by simp
    with Cons.prems(1) show ?thesis by auto
  next
    case False
    with Cons.prems(2) have "Q x" "\<not> P x" by auto
    with le show ?thesis by simp
  qed
qed

lemma remaining_le: "remaining startAfter w \<le> length (meals w)"
  by (auto simp: remaining_def split: option.splits)

text \<open>
  The document found under the id of a stored document has that document's creation
  time, in any world with the same ids and creation times.
\<close>

lemma same_key_lookup:
  assumes "map fst ms' = map fst ms"
    and "map (created_time \<circ> snd) ms' = map (created_time \<circ> snd) ms"
    and "(l, d) \<in> set ms" and "distinct (map fst ms)"
  shows "\<exists>d'. find_meal l ms' = Some d' \<and> created_time d' = created_time d"
  using assms
proof (induction ms arbitrary: ms')
  case Nil
  then show ?case by simp
next
  case (Cons x ms)
  from Cons.prems(1) obtain x' ms1 where ms': "ms' = x' # ms1"
    by (cases ms') auto
  with Cons.prems have eq: "fst x' = fst x" "created_time (snd x') = created_time (snd x)"
    "map fst ms1 = map fst ms"
    "map (created_time \<circ> snd) ms1 = map (created_time \<circ> snd) ms"
    by (auto simp: comp_def)
  show ?case
  proof (cases "x = (l, d)")
    case True
    with eq ms' show ?thesis
      by (cases x') (auto simp: find_meal_def)
  next
    case False
    with Cons.prems have in_ms: "(l, d) \<in> set ms" and "distinct (map fst ms)"
      by auto
    from Cons.IH [OF eq(3,4) this] obtain d' where
      d': "find_meal l ms1 = Some d'" "created_time d' = created_time d"
      by blast
    have "l \<in> fst ` set ms"
      using in_ms by force
    then have "fst x \<noteq> l"
      using Cons.prems(4) by auto
    with d' eq(1) ms' show ?thesis
      by (cases x') (auto simp: find_meal_def)
  qed
qed

lemma length_filter_same_keys:
  assumes "map fst ms' = map fst ms"
    and "map (created_time \<circ> snd) ms' = map (created_time \<circ> snd) ms"
  shows "length (filter (\<lambda>(j, d'). c < (created_time d', j)) ms')
       = length (filter (\<lambda>(j, d'). c < (created_time d', j)) ms)"
  using assms
proof (induction ms arbitrary: ms')
  case Nil
  then show ?case by simp
next
  case (Cons x ms)
  from Cons.prems(1) obtain x' ms1 where ms': "ms' = x' # ms1"
    by (cases ms') auto
  with Cons.prems have eq: "fst x' = fst x" "created_time (snd x') = created_time (snd x)"
    "map fst ms1 = map fst ms"
    "map (created_time \<circ> snd) ms1 = map (created_time \<circ> snd) ms"
    by (auto simp: comp_def)
  from Cons.IH [OF eq(3,4)] eq(1,2) ms' show ?case
    by (cases x, cases x') auto
qed

text \<open>After a non-empty page, fewer documents lie after the new cursor.\<close>

lemma page_advances:
  assumes run: "updateMealsInBatches e startAfter w = (Inr result, w1)"
    and more: "r_hasMore result"
    and ids: "distinct (map fst (meals w))" "[] \<notin> fst ` set (meals w)"
  shows "remaining (r_lastProcessedId result) w1 < remaining startAfter w"
  using run
proof (cases rule: updateMealsInBatches_cases)
  case (failed err)
  then show ?thesis by simp
next
  case empty
  with more show ?thesis by simp
next
  case (page docs w2 p u l)
  let ?start = "start_doc_of startAfter (meals w)"
  have l: "l = fst (last docs)"
    using update_docs_counts [OF page(6)] page(1) by simp
  obtain dl where last: "last docs = (l, dl)"
    using l by (cases "last docs") simp
  have in_docs: "(l, dl) \<in> set docs"
    using last page(1) by (metis last_in_set)
  then have stored: "(l, dl) \<in> set (meals w)"
    using page(2) by auto
  then have l_ne: "l \<noteq> []"
    using ids(2) by force
  have touch: "only_touches {i. \<exists>d. (i, d) \<in> set docs \<and> \<not> already_updated d} w2 w1"
    using only_touches_update_docs [of docs w2 e "(0, 0, [])"] page(6) by simp
  then have keys: "map fst (meals w1) = map fst (meals w)"
    "map (created_time \<circ> snd) (meals w1) = map (created_time \<circ> snd) (meals w)"
    using page(4) by (simp_all add: only_touches_def)
  from same_key_lookup [OF keys stored ids(1)] obtain d' where
    d': "find_meal l (meals w1) = Some d'" "created_time d' = created_time dl"
    by blast
  let ?after = "\<lambda>(j, x). (created_time dl, l) < (created_time x, j)"
  have new: "remaining (r_lastProcessedId result) w1 = length (filter ?after (meals w))"
    using page(7) l_ne d' length_filter_same_keys [OF keys, of "(created_time dl, l)"]
    by (simp add: remaining_def start_doc_of_def)
  have not_after: "\<not> ?after (l, dl)"
    by simp
  show ?thesis
  proof (cases ?start)
    case None
    have "length (filter ?after (meals w)) < length (filter (\<lambda>x. True) (meals w))"
      by (rule length_filter_less) (use stored not_after in auto)
    with new None show ?thesis
      by (simp add: remaining_def)
  next
    case (Some sd)
    obtain i d where sd: "sd = (i, d)" by (cases sd)
    let ?before = "\<lambda>(j, x). (created_time d, i) < (created_time x, j)"
    have "(l, dl) \<in> set (filter ?before (by_created_time (meals w)))"
      using in_docs page(3) Some sd
      by (auto simp: query_by_created_time_def dest!: in_set_takeD)
    then have lt: "(created_time d, i) < (created_time dl, l)"
      by simp
    have "length (filter ?after (meals w)) < length (filter ?before (meals w))"
    proof (rule length_filter_less)
      show "\<forall>x \<in> set (meals w). ?after x \<longrightarrow> ?before x"
        using lt by (auto intro: less_trans)
      show "\<exists>x \<in> set (meals w). ?before x \<and> \<not> ?after x"
        using stored lt not_after by (intro bexI [of _ "(l, dl)"]) auto
    qed
    with new Some sd show ?thesis
      by (simp add: remaining_def)
  qed
qed

lemma ids_after_page:
  assumes "updateMealsInBatches e startAfter w = (res, w1)"
  shows "map fst (meals w1) = map fst (meals w)"
  using only_touches_updateMealsInBatches [of w e startAfter] assms
  by (simp add: only_touches_def)

lemma drain_loop_terminates:
  "distinct (map fst (meals w)) \<Longrightarrow> [] \<notin> fst ` set (meals w) \<Longrightarrow>
     remaining startAfter w < n \<Longrightarrow>
     \<exists>res w'. drain_loop e n startAfter totals w = Some (res, w')"
proof (induction n arbitrary: startAfter totals w)
  case 0
  then show ?case by simp
next
  case (Suc n)
  obtain tp tu where totals: "totals = (tp, tu)" by (cases totals)
  obtain res w1 where run: "updateMealsInBatches e startAfter w = (res, w1)"
    by (cases "updateMealsInBatches e startAfter w")
  show ?case
  proof (cases res)
    case (Inl err)
    with run totals show ?thesis by simp
  next
    case (Inr result)
    show ?thesis
    proof (cases "r_hasMore result")
      case False
      with run Inr totals show ?thesis by (simp add: Let_def)
    next
      case True
      let ?w2 = "sleep 5000 w1"
      have ids: "map fst (meals ?w2) = map fst (meals w)"
        using ids_after_page [OF run] by (simp add: sleep_def)
      have "remaining (r_lastProcessedId result) ?w2 = remaining (r_lastProcessedId result) w1"
        by (simp add: remaining_def sleep_def cong: option.case_cong prod.case_cong)
      also have "\<dots> < remaining startAfter w"
        using page_advances [OF _ True Suc.prems(1,2)] run Inr by simp
      finally have less: "remaining (r_lastProcessedId result) ?w2 < n"
        using Suc.prems(3) by simp
      have d: "distinct (map fst (meals ?w2))" "[] \<notin> fst ` set (meals ?w2)"
        using Suc.prems(1,2) ids by (simp_all flip: set_map)
      from Suc.IH [OF d less] run Inr True totals show ?thesis
        by (simp add: Let_def)
    qed
  qed
qed

text \<open>
  With distinct, non-empty document ids, one round more than there are documents is
  enough for \<^verbatim>\<open>updateAllExistingMeals\<close> to come to an end, whatever the outside
  calls answer.
\<close>

lemma drain_terminates:
  assumes "distinct (map fst (meals w))" and "[] \<notin> fst ` set (meals w)"
  shows "\<exists>r w'. updateAllExistingMeals e (Suc (length (meals w))) w = Some (r, w')"
proof -
  obtain running w1 where g: "isUpdateProcessRunning e w = (running, w1)"
    by (cases "isUpdateProcessRunning e w")
  obtain acquired w2 where a: "acquireLock e w1 = (acquired, w2)"
    by (cases "acquireLock e w1")
  have m1: "meals w1 = meals w"
    using g
    by (auto simp: isUpdateProcessRunning_def releaseLock_def store_call_def
        split: option.splits if_splits)
  have m2: "meals w2 = meals w"
    using a m1 by (auto simp: acquireLock_def store_call_def split: option.splits)
  have "remaining None w2 < Suc (length (meals w))"
    using remaining_le [of None w2] m2 by simp
  from drain_loop_terminates [OF _ _ this, of e "(0, 0)"] assms m2
  obtain res w3 where "drain_loop e (Suc (length (meals w))) None (0, 0) w2 = Some (res, w3)"
    by auto
  with g a show ?thesis
    by (cases res) (simp_all add: updateAllExistingMeals_def)
qed

end
